theory Spec2Isabelle
  imports Main
begin

section \<open>Go strings, runes and integer division\<close>

text \<open>
  A Go string is a sequence of bytes; it is modelled as a \<^typ>\<open>string\<close>, one
  \<^typ>\<open>char\<close> for each byte, and \<open>len\<close> is \<^const>\<open>length\<close>. A
  \<open>for _, c := range s\<close> loop does not visit bytes but runes: it decodes UTF-8, and
  an invalid or truncated sequence gives the rune U+FFFD of width one.
\<close>

type_synonym rune = nat

definition RuneError :: rune where
  "RuneError = 65533"

text \<open>
  The lead-byte table of the decoder: the width of the sequence that a lead byte at or
  above 0x80 announces, and the range accepted for its second byte.
\<close>

definition first_tab :: "nat \<Rightarrow> (nat \<times> nat \<times> nat) option" where
  "first_tab b0 =
     (if 194 \<le> b0 \<and> b0 \<le> 223 then Some (2, 128, 191)
      else if b0 = 224 then Some (3, 160, 191)
      else if 225 \<le> b0 \<and> b0 \<le> 236 then Some (3, 128, 191)
      else if b0 = 237 then Some (3, 128, 159)
      else if 238 \<le> b0 \<and> b0 \<le> 239 then Some (3, 128, 191)
      else if b0 = 240 then Some (4, 144, 191)
      else if 241 \<le> b0 \<and> b0 \<le> 243 then Some (4, 128, 191)
      else if b0 = 244 then Some (4, 128, 143)
      else None)"

fun DecodeRune :: "nat list \<Rightarrow> rune \<times> nat" where
  "DecodeRune [] = (RuneError, 0)"
| "DecodeRune (b0 # rest) =
     (if b0 < 128 then (b0, 1)
      else case first_tab b0 of
        None \<Rightarrow> (RuneError, 1)
      | Some (sz, lo, hi) \<Rightarrow>
          if length rest + 1 < sz then (RuneError, 1)
          else let b1 = rest ! 0 in
            if b1 < lo \<or> hi < b1 then (RuneError, 1)
            else if sz \<le> 2 then ((b0 mod 32) * 64 + b1 mod 64, 2)
            else let b2 = rest ! 1 in
              if b2 < 128 \<or> 191 < b2 then (RuneError, 1)
              else if sz \<le> 3
                then ((b0 mod 16) * 4096 + (b1 mod 64) * 64 + b2 mod 64, 3)
              else let b3 = rest ! 2 in
                if b3 < 128 \<or> 191 < b3 then (RuneError, 1)
                else ((b0 mod 8) * 262144 + (b1 mod 64) * 4096
                        + (b2 mod 64) * 64 + b3 mod 64, 4))"

text \<open>The runes a \<open>range\<close> loop visits, in order.\<close>

function range_runes :: "nat list \<Rightarrow> rune list" where
  "range_runes [] = []"
| "range_runes (b # bs) =
     fst (DecodeRune (b # bs)) # range_runes (drop (snd (DecodeRune (b # bs)) - 1) bs)"
  by pat_completeness auto
termination
  by (relation "measure length") auto

definition runes_of :: "string \<Rightarrow> rune list" where
  "runes_of s = range_runes (map of_char s)"

text \<open>
  Go's \<open>/\<close> on integers truncates toward zero, where \<^const>\<open>divide\<close> on
  \<^typ>\<open>int\<close> rounds down.
\<close>

definition go_div :: "int \<Rightarrow> int \<Rightarrow> int" where
  "go_div a b = sgn a * sgn b * (\<bar>a\<bar> div \<bar>b\<bar>)"

section \<open>The crawl handler: job ids\<close>

text \<open>
  \<open>isValidJobID\<close>: the length test on bytes, then the loop over the runes, which
  leaves with \<open>false\<close> at the first rune outside the four classes.
\<close>

definition job_id_rune_ok :: "rune \<Rightarrow> bool" where
  "job_id_rune_ok c \<longleftrightarrow>
     (of_char CHR ''a'' \<le> c \<and> c \<le> of_char CHR ''z'') \<or>
     (of_char CHR ''A'' \<le> c \<and> c \<le> of_char CHR ''Z'') \<or>
     (of_char CHR ''0'' \<le> c \<and> c \<le> of_char CHR ''9'') \<or>
     c = of_char CHR ''-'' \<or> c = of_char CHR ''_''"

fun job_id_loop :: "rune list \<Rightarrow> bool" where
  "job_id_loop [] = True"
| "job_id_loop (c # cs) = (if \<not> job_id_rune_ok c then False else job_id_loop cs)"

definition isValidJobID :: "string \<Rightarrow> bool" where
  "isValidJobID jobID =
     (if length jobID < 3 \<or> length jobID > 50 then False
      else job_id_loop (runes_of jobID))"


section \<open>The reachability prober\<close>

text \<open>
  \<open>net/url\<close> and \<open>net/http\<close> are outside the program. A parsed URL is
  its scheme, its host and the rest (user, path, query, fragment), which the prober
  copies unchanged. The environment gives \<open>url.Parse\<close> (\<open>None\<close> for a
  parse error), \<open>URL.String\<close>, and what a GET with up to five redirects ends in:
  a transport error, or the final status code with its status line.
\<close>

record ParsedURL =
  Scheme :: string
  Host :: string
  Rest :: string

record net_env =
  Parse :: "string \<Rightarrow> ParsedURL option"
  String :: "ParsedURL \<Rightarrow> string"
  Get :: "string \<Rightarrow> string + (int \<times> string)"

record URLFallback =
  OriginalURL :: string
  FallbackURL :: string
  Success_f :: bool
  Error_f :: string

definition HasPrefix :: "string \<Rightarrow> string \<Rightarrow> bool" where
  "HasPrefix s pre \<longleftrightarrow> take (length pre) s = pre"

text \<open>Decimal printing, for the \<open>%d\<close> of an error message.\<close>

function nat_digits :: "nat \<Rightarrow> string" where
  "nat_digits n =
     (if n < 10 then [''0123456789'' ! n]
      else nat_digits (n div 10) @ [''0123456789'' ! (n mod 10)])"
  by pat_completeness auto
termination
  by (relation "measure id") auto

definition Itoa :: "int \<Rightarrow> string" where
  "Itoa i = (if i < 0 then CHR ''-'' # nat_digits (nat (- i)) else nat_digits (nat i))"

text \<open>
  \<open>CheckURLAccessibility\<close>: \<open>None\<close> is the nil error. The pause before the
  request has no part in the result.
\<close>

definition CheckURLAccessibility :: "net_env \<Rightarrow> string \<Rightarrow> string option" where
  "CheckURLAccessibility env urlStr =
     (case Parse env urlStr of
        None \<Rightarrow> Some ''parse error''
      | Some u \<Rightarrow>
          (case Get env urlStr of
             Inl err \<Rightarrow> Some err
           | Inr (code, status) \<Rightarrow>
               if code \<ge> 200 \<and> code < 400 then None
               else if code = 403
                 then Some ''HTTP 403: Forbidden (may need different approach)''
               else Some (''HTTP '' @ Itoa code @ '': '' @ status)))"

definition GenerateFallbackURLs :: "net_env \<Rightarrow> string \<Rightarrow> string list" where
  "GenerateFallbackURLs env originalURL =
     (case Parse env originalURL of
        None \<Rightarrow> []
      | Some parsed \<Rightarrow>
          (let host = Host parsed;
               fallbacks = [];
               fallbacks = (if \<not> HasPrefix host ''www.''
                 then fallbacks @ [String env (parsed\<lparr>Host := ''www.'' @ host\<rparr>)]
                 else fallbacks);
               fallbacks = (if HasPrefix host ''www.''
                 then fallbacks @ [String env (parsed\<lparr>Host := drop 4 host\<rparr>)]
                 else fallbacks)
           in if Scheme parsed = ''http'' then
                (let httpsURL = parsed\<lparr>Scheme := ''https''\<rparr>;
                     fallbacks = fallbacks @ [String env httpsURL]
                 in if \<not> HasPrefix host ''www.''
                      then fallbacks @ [String env (httpsURL\<lparr>Host := ''www.'' @ host\<rparr>)]
                    else fallbacks @ [String env (httpsURL\<lparr>Host := drop 4 host\<rparr>)])
              else fallbacks))"

fun fallback_loop ::
  "net_env \<Rightarrow> string \<Rightarrow> URLFallback \<Rightarrow> string list \<Rightarrow> string \<times> URLFallback" where
  "fallback_loop env originalURL fallbackInfo [] = (originalURL, fallbackInfo)"
| "fallback_loop env originalURL fallbackInfo (fallbackURL # rest) =
     (case CheckURLAccessibility env fallbackURL of
        None \<Rightarrow> (fallbackURL, fallbackInfo\<lparr>FallbackURL := fallbackURL, Success_f := True\<rparr>)
      | Some err \<Rightarrow> fallback_loop env originalURL fallbackInfo rest)"

definition FindAccessibleURL :: "net_env \<Rightarrow> string \<Rightarrow> string \<times> URLFallback" where
  "FindAccessibleURL env originalURL =
     (let fallbackInfo = \<lparr>OriginalURL = originalURL, FallbackURL = originalURL,
                           Success_f = False, Error_f = []\<rparr>
      in case CheckURLAccessibility env originalURL of
           None \<Rightarrow> (originalURL, fallbackInfo\<lparr>Success_f := True\<rparr>)
         | Some err \<Rightarrow>
             fallback_loop env originalURL (fallbackInfo\<lparr>Error_f := err\<rparr>)
               (GenerateFallbackURLs env originalURL))"

text \<open>
  The candidates as the specification lists them: the host with the \<open>www.\<close>
  prefix added or removed, then, for the scheme \<open>http\<close>, the \<open>https\<close>
  variants of both host forms.
\<close>

definition toggle_www :: "string \<Rightarrow> string" where
  "toggle_www host = (if HasPrefix host ''www.'' then drop 4 host else ''www.'' @ host)"

definition spec_fallbacks :: "net_env \<Rightarrow> ParsedURL \<Rightarrow> string list" where
  "spec_fallbacks env u =
     String env (u\<lparr>Host := toggle_www (Host u)\<rparr>) #
     (if Scheme u = ''http''
      then [String env (u\<lparr>Scheme := ''https''\<rparr>),
            String env (u\<lparr>Scheme := ''https'', Host := toggle_www (Host u)\<rparr>)]
      else [])"

definition reachable :: "net_env \<Rightarrow> string \<Rightarrow> bool" where
  "reachable env u \<longleftrightarrow> CheckURLAccessibility env u = None"

section \<open>Content extraction\<close>

record ContentSizes =
  Markdown_size :: int

record ContentResponse =
  URL :: string
  StatusCode :: int
  ContentType :: string
  Markdown :: string
  Sizes :: ContentSizes
  Headers :: "(string \<times> string) list"
  Error :: string

text \<open>The zero value of the struct, which \<open>make\<close> and a composite literal start from.\<close>

definition ContentResponse_zero :: ContentResponse where
  "ContentResponse_zero =
     \<lparr>URL = [], StatusCode = 0, ContentType = [], Markdown = [],
      Sizes = \<lparr>Markdown_size = 0\<rparr>, Headers = [], Error = []\<rparr>"

text \<open>\<open>strings.Contains\<close>.\<close>

fun Contains :: "string \<Rightarrow> string \<Rightarrow> bool" where
  "Contains [] substr = (substr = [])"
| "Contains (c # cs) substr =
     (take (length substr) (c # cs) = substr \<or> Contains cs substr)"

text \<open>
  What the extractor reaches outside the program, as the results it gets back:
  \<open>strings.TrimSpace\<close> and \<open>strings.ToLower\<close> of the standard library, the
  network of the prober, the rendering of \<open>tryJSDOMRendering\<close>, the HTTP client
  (\<open>http.NewRequest\<close> with its error, \<open>client.Do\<close> with a transport error or
  a response), the browser pool, the pooled browser's scrape, the aggressive HTTP loop
  and the Markdown converter. An error is \<open>Inl\<close> of its message.
\<close>

record HTTPResponse =
  resp_StatusCode :: int
  resp_Status :: string
  resp_Header :: "(string \<times> string list) list"
  resp_Body :: "string + string"

record content_env =
  TrimSpace :: "string \<Rightarrow> string"
  ToLower :: "string \<Rightarrow> string"
  prober :: net_env
  tryJSDOMRendering :: "string \<Rightarrow> string + string"
  NewRequest :: "string \<Rightarrow> string option"
  Do :: "string \<Rightarrow> string + HTTPResponse"
  poolInitialized :: bool
  browserPoolGet :: "string + unit"
  scrapeWithPooledBrowser :: "string \<Rightarrow> string + string"
  tryAggressiveHTTP :: "string \<Rightarrow> ContentResponse"
  convertToMarkdown :: "string \<Rightarrow> string + string"

text \<open>\<open>Header.Get\<close>: the first value under the key, or the empty string.\<close>

definition Header_Get :: "(string \<times> string list) list \<Rightarrow> string \<Rightarrow> string" where
  "Header_Get header key =
     (case map_of header key of Some (v # vs) \<Rightarrow> v | _ \<Rightarrow> [])"

text \<open>
  The test \<open>err == nil && htmlContent != ""\<close> on the rendering: the HTML when it
  passes.
\<close>

definition rendered_html :: "content_env \<Rightarrow> string \<Rightarrow> string option" where
  "rendered_html env actualURL =
     (case tryJSDOMRendering env actualURL of
        Inl err \<Rightarrow> None
      | Inr htmlContent \<Rightarrow> if htmlContent \<noteq> [] then Some htmlContent else None)"

text \<open>
  \<open>tryHTMLScraping\<close>: the prober, then the rendered fetch, and the plain HTTP GET
  only when the rendering fails or gives nothing.
\<close>

definition tryHTMLScraping :: "content_env \<Rightarrow> string \<Rightarrow> ContentResponse" where
  "tryHTMLScraping env targetURL =
     (let response = ContentResponse_zero\<lparr>URL := targetURL\<rparr>;
          (actualURL, fallbackInfo) = FindAccessibleURL (prober env) targetURL;
          response = response\<lparr>URL := actualURL\<rparr>
      in if \<not> Success_f fallbackInfo then response\<lparr>Error := Error_f fallbackInfo\<rparr>
      else case rendered_html env actualURL of
        Some htmlContent \<Rightarrow>
          (let response = response\<lparr>StatusCode := 200,
                 ContentType := ''text/html; charset=UTF-8'',
                 Headers := [(''Content-Type'', ''text/html; charset=UTF-8''),
                             (''X-Rendered-By'', ''JSDOM-Tier1'')]\<rparr>;
               response = response\<lparr>Markdown :=
                 (case convertToMarkdown env htmlContent of
                    Inr markdown \<Rightarrow> markdown
                  | Inl err \<Rightarrow> ''Error converting JSDOM content to markdown: '' @ err)\<rparr>
           in response\<lparr>Sizes := \<lparr>Markdown_size = int (length (Markdown response))\<rparr>\<rparr>)
      | None \<Rightarrow>
          (case NewRequest env actualURL of
             Some err \<Rightarrow> response\<lparr>Error := ''Failed to create request: '' @ err\<rparr>
           | None \<Rightarrow>
               (case Do env actualURL of
                  Inl err \<Rightarrow> response\<lparr>Error := ''Failed to fetch URL: '' @ err\<rparr>
                | Inr resp \<Rightarrow>
                    if resp_StatusCode resp = 403 \<or> resp_StatusCode resp = 429 then
                      response\<lparr>Error := ''HTTP '' @ Itoa (resp_StatusCode resp) @ '': ''
                        @ resp_Status resp
                        @ '' (blocked by server, trying browser fallback)''\<rparr>
                    else (case resp_Body resp of
                      Inl err \<Rightarrow> response\<lparr>Error := ''Failed to read response: '' @ err\<rparr>
                    | Inr body \<Rightarrow>
                        (let headers = map (\<lambda>(key, values). (key, hd values))
                               (filter (\<lambda>(key, values). length values > 0) (resp_Header resp));
                             rawContent = body;
                             contentType = Header_Get (resp_Header resp) ''Content-Type'';
                             isHTML = Contains (ToLower env contentType) ''text/html'';
                             response = response\<lparr>StatusCode := resp_StatusCode resp,
                               ContentType := contentType, Headers := headers\<rparr>;
                             response = response\<lparr>Markdown :=
                               (if isHTML then
                                  (case convertToMarkdown env rawContent of
                                     Inr markdown \<Rightarrow> markdown
                                   | Inl err \<Rightarrow> ''Error converting to markdown: '' @ err)
                                else rawContent)\<rparr>
                         in response\<lparr>Sizes :=
                              \<lparr>Markdown_size = int (length (Markdown response))\<rparr>\<rparr>)))))"

definition tryBrowserScraping :: "content_env \<Rightarrow> string \<Rightarrow> ContentResponse" where
  "tryBrowserScraping env targetURL =
     (let response = ContentResponse_zero\<lparr>URL := targetURL\<rparr> in
      if \<not> poolInitialized env
        then response\<lparr>Error := ''Browser pool not initialized''\<rparr>
      else case browserPoolGet env of
        Inl err \<Rightarrow> response\<lparr>Error := ''Failed to get browser from pool: '' @ err\<rparr>
      | Inr browser \<Rightarrow>
          (case scrapeWithPooledBrowser env targetURL of
             Inl err \<Rightarrow>
               (let aggressiveResponse = tryAggressiveHTTP env targetURL in
                if Error aggressiveResponse = [] then aggressiveResponse
                else response\<lparr>Error := ''Browser scraping failed: '' @ err
                       @ '' (Aggressive HTTP also failed: '' @ Error aggressiveResponse
                       @ '')''\<rparr>)
           | Inr htmlContent \<Rightarrow>
               (let response = response\<lparr>Markdown :=
                      (case convertToMarkdown env htmlContent of
                         Inr markdown \<Rightarrow> markdown
                       | Inl err \<Rightarrow> ''Error converting to markdown: '' @ err)\<rparr>;
                    response = response\<lparr>StatusCode := 200, ContentType := ''text/html'',
                      Headers := [(''Content-Type'', ''text/html''),
                                  (''X-Scraped-With'', ''Browser'')]\<rparr>
                in response\<lparr>Sizes := \<lparr>Markdown_size = int (length (Markdown response))\<rparr>\<rparr>)))"

definition processURL :: "content_env \<Rightarrow> string \<Rightarrow> ContentResponse" where
  "processURL env targetURL =
     (let htmlResponse = tryHTMLScraping env targetURL in
      if Error htmlResponse = [] \<and> length (TrimSpace env (Markdown htmlResponse)) > 100
        then htmlResponse
      else let browserResponse = tryBrowserScraping env targetURL in
        if Error browserResponse = [] then browserResponse
        else if Error htmlResponse \<noteq> [] then
          (if Contains (Error browserResponse) ''browser not available''
             then htmlResponse\<lparr>Error := Error htmlResponse
               @ '' (Browser fallback unavailable: headless browser not available in this environment)''\<rparr>
           else htmlResponse\<lparr>Error := Error htmlResponse
               @ '' (Browser fallback also failed: '' @ Error browserResponse @ '')''\<rparr>)
        else browserResponse)"

text \<open>
  The acceptance test the specification gives for every strategy: an empty error and a
  trimmed Markdown of more than 100 bytes.
\<close>

definition spec_good :: "content_env \<Rightarrow> ContentResponse \<Rightarrow> bool" where
  "spec_good env r \<longleftrightarrow> Error r = [] \<and> length (TrimSpace env (Markdown r)) > 100"

text \<open>A trimming function for concrete runs: the six ASCII white-space bytes.\<close>

definition ascii_space :: "char \<Rightarrow> bool" where
  "ascii_space c \<longleftrightarrow> c \<in> set [CHR 0x09, CHR 0x0A, CHR 0x0B, CHR 0x0C, CHR 0x0D, CHR '' '']"

definition ascii_TrimSpace :: "string \<Rightarrow> string" where
  "ascii_TrimSpace s = rev (dropWhile ascii_space (rev (dropWhile ascii_space s)))"

text \<open>A lower-casing function for concrete runs: the ASCII letters.\<close>

definition ascii_ToLower :: "string \<Rightarrow> string" where
  "ascii_ToLower s =
     map (\<lambda>c. if c \<in> set ''ABCDEFGHIJKLMNOPQRSTUVWXYZ''
              then char_of (of_char c + (32::nat)) else c) s"

section \<open>The worker pool\<close>

text \<open>
  Go's \<open>int\<close> is 64 bits wide here and wraps; \<open>wrap64\<close> is the value an
  arithmetic result is reduced to.
\<close>

definition wrap64 :: "int \<Rightarrow> int" where
  "wrap64 x = (x + 2 ^ 63) mod 2 ^ 64 - 2 ^ 63"

record WorkerPool =
  maxWorkers :: int
  activeJobs :: int
  browserPoolSize :: int

text \<open>
  \<open>calculateOptimalWorkers\<close>, from \<open>runtime.NumCPU()\<close> and the
  \<open>Sys\<close> field of the memory statistics (an unsigned 64-bit count of bytes).
\<close>

definition calculateOptimalWorkers :: "int \<Rightarrow> nat \<Rightarrow> int" where
  "calculateOptimalWorkers cpuCount memSys =
     (let cpuBasedLimit = wrap64 (cpuCount * 2);
          memoryBasedLimit = wrap64 (int (memSys div (100 * 1024 * 1024)));
          memoryBasedLimit = (if memoryBasedLimit < 1 then 10 else memoryBasedLimit);
          maxWorkers = cpuBasedLimit;
          maxWorkers = (if memoryBasedLimit < maxWorkers then memoryBasedLimit else maxWorkers);
          maxWorkers = (if maxWorkers > 50 then 50 else maxWorkers);
          maxWorkers = (if maxWorkers < 5 then 5 else maxWorkers)
      in maxWorkers)"

definition InitializeGlobalPool :: "int \<Rightarrow> nat \<Rightarrow> WorkerPool" where
  "InitializeGlobalPool cpuCount memSys =
     (let maxWorkers = calculateOptimalWorkers cpuCount memSys in
      \<lparr>maxWorkers = maxWorkers, activeJobs = 0,
       browserPoolSize = go_div maxWorkers 2\<rparr>)"

definition CanAcceptWork :: "WorkerPool \<Rightarrow> int \<Rightarrow> bool" where
  "CanAcceptWork wp urlCount =
     (let active = activeJobs wp;
          available = maxWorkers wp - active
      in available \<ge> go_div urlCount 10 \<or> available \<ge> 2)"

text \<open>
  What \<open>processWithReducedConcurrency\<close> returns when it is called with a limit of
  at least 1, as \<open>ProcessContentURLs\<close> calls it: the response for every URL at its
  index, and no error. How it runs, with the channel that bounds its goroutines and for
  any limit, is \<open>processWithReducedConcurrency_run\<close> below.
\<close>

definition processWithReducedConcurrency ::
  "(string \<Rightarrow> ContentResponse) \<Rightarrow> string list \<Rightarrow> int \<Rightarrow> ContentResponse list \<times> string option" where
  "processWithReducedConcurrency fetch urls limit = (map fetch urls, None)"

text \<open>
  How the normal path ends, which the scheduler and the clock decide: a submission that
  waits five seconds, the batch deadline reached after the results of some indices have
  arrived, or every result collected.
\<close>

datatype pool_run = SubmitTimeout | ProcessingTimeout "nat list" | Collected

fun store_result ::
  "(string \<Rightarrow> ContentResponse) \<Rightarrow> string list \<Rightarrow> ContentResponse list \<Rightarrow> nat \<Rightarrow> ContentResponse list" where
  "store_result fetch urls results i =
     (if i < length urls then results[i := fetch (urls ! i)] else results)"

text \<open>
  The branch \<open>ProcessContentURLs\<close> takes before it processes anything: normal
  processing, the reduced path with its limit, or the overload error.
\<close>

datatype admission = Accepted | Reduced int | Overloaded

definition admit :: "WorkerPool \<Rightarrow> string list \<Rightarrow> admission" where
  "admit wp urls =
     (if \<not> CanAcceptWork wp (int (length urls)) then
        (let reduced = go_div (maxWorkers wp) 4 in
         if reduced < 1 then Overloaded else Reduced reduced)
      else Accepted)"

definition ProcessContentURLs ::
  "WorkerPool \<Rightarrow> (string \<Rightarrow> ContentResponse) \<Rightarrow> pool_run \<Rightarrow> string list
     \<Rightarrow> ContentResponse list \<times> string option" where
  "ProcessContentURLs wp fetch run urls =
     (case admit wp urls of
        Overloaded \<Rightarrow> ([], Some ''system overloaded'')
      | Reduced reduced \<Rightarrow> processWithReducedConcurrency fetch urls reduced
      | Accepted \<Rightarrow>
          (let results = replicate (length urls) ContentResponse_zero in
           case run of
             SubmitTimeout \<Rightarrow> ([], Some ''job submission timeout'')
           | ProcessingTimeout arrived \<Rightarrow>
               (foldl (store_result fetch urls) results arrived, Some ''processing timeout'')
           | Collected \<Rightarrow>
               (foldl (store_result fetch urls) results [0..<length urls], None)))"

subsection \<open>The reduced path as it runs\<close>

text \<open>
  \<open>processWithReducedConcurrency\<close> starts one goroutine for every URL; each sends
  on the channel \<open>sem\<close> of capacity \<open>limit\<close>, processes its URL, stores
  the response at its index and receives from \<open>sem\<close>. The events of a run are the
  sends that went through and the receives, with the index of the goroutine.
\<close>

datatype sem_event = Acquire nat | Release nat

text \<open>
  A call returns a value, panics (\<open>make\<close> with a negative size), or waits for ever
  in \<open>wg.Wait\<close>.
\<close>

datatype 'a outcome = Returns 'a | Panics string | Blocks

text \<open>
  The state between two events: the goroutines that have not sent yet, those that hold a
  slot of the channel, and the slice \<open>results\<close>. A step of goroutine \<open>i\<close>:
  if it holds a slot, it stores its response and receives from the channel; if it still
  waits and the channel holds fewer than \<open>limit\<close> elements, its send goes through;
  otherwise it stays blocked (or has finished) and nothing happens.
\<close>

type_synonym sem_state = "nat list \<times> nat list \<times> ContentResponse list"

fun sem_step ::
  "(string \<Rightarrow> ContentResponse) \<Rightarrow> string list \<Rightarrow> int \<Rightarrow> nat \<Rightarrow> sem_state
     \<Rightarrow> sem_event list \<times> sem_state" where
  "sem_step fetch urls limit i (waiting, holding, results) =
     (if i \<in> set holding then
        ([Release i], (waiting, removeAll i holding, results[i := fetch (urls ! i)]))
      else if i \<in> set waiting \<and> int (length holding) < limit then
        ([Acquire i], (removeAll i waiting, holding @ [i], results))
      else ([], (waiting, holding, results)))"

text \<open>The scheduler's choices, one goroutine after the other.\<close>

fun sem_exec ::
  "(string \<Rightarrow> ContentResponse) \<Rightarrow> string list \<Rightarrow> int \<Rightarrow> nat list \<Rightarrow> sem_state
     \<Rightarrow> sem_event list \<times> sem_state" where
  "sem_exec fetch urls limit [] st = ([], st)"
| "sem_exec fetch urls limit (i # sched) st =
     (let (ev, st') = sem_step fetch urls limit i st;
          (tr, st'') = sem_exec fetch urls limit sched st'
      in (ev @ tr, st''))"

text \<open>
  \<open>wg.Wait\<close>: the goroutines left run to their end, the holders first. With no
  holder and no room in the channel, the goroutines that wait are blocked for ever.
\<close>

function sem_drain ::
  "(string \<Rightarrow> ContentResponse) \<Rightarrow> string list \<Rightarrow> int \<Rightarrow> sem_state
     \<Rightarrow> (ContentResponse list \<times> string option) outcome \<times> sem_event list" where
  "sem_drain fetch urls limit (waiting, h # holding, results) =
     (let (out, tr) = sem_drain fetch urls limit
            (waiting, holding, results[h := fetch (urls ! h)])
      in (out, Release h # tr))"
| "sem_drain fetch urls limit (w # waiting, [], results) =
     (if 0 < limit then
        (let (out, tr) = sem_drain fetch urls limit (waiting, [w], results)
         in (out, Acquire w # tr))
      else (Blocks, []))"
| "sem_drain fetch urls limit ([], [], results) = (Returns (results, None), [])"
  by pat_completeness auto
termination
  by (relation "measure (\<lambda>(fetch, urls, limit, waiting, holding, results).
        2 * length waiting + length holding)") auto

text \<open>
  The run of \<open>processWithReducedConcurrency\<close> under a schedule: its outcome and
  the events on \<open>sem\<close>.
\<close>

definition processWithReducedConcurrency_run ::
  "(string \<Rightarrow> ContentResponse) \<Rightarrow> string list \<Rightarrow> int \<Rightarrow> nat list
     \<Rightarrow> (ContentResponse list \<times> string option) outcome \<times> sem_event list" where
  "processWithReducedConcurrency_run fetch urls limit sched =
     (if limit < 0 then (Panics ''makechan: size out of range'', [])
      else
        (let results = replicate (length urls) ContentResponse_zero;
             (tr, st) = sem_exec fetch urls limit sched ([0..<length urls], [], results);
             (out, tr') = sem_drain fetch urls limit st
         in (out, tr @ tr')))"

text \<open>
  The run of \<open>ProcessContentURLs\<close>, branch by branch as in the source, with the
  events on the channel of the reduced path.
\<close>

definition ProcessContentURLs_run ::
  "WorkerPool \<Rightarrow> (string \<Rightarrow> ContentResponse) \<Rightarrow> pool_run \<Rightarrow> nat list \<Rightarrow> string list
     \<Rightarrow> (ContentResponse list \<times> string option) outcome \<times> sem_event list" where
  "ProcessContentURLs_run wp fetch run sched urls =
     (if \<not> CanAcceptWork wp (int (length urls)) then
        (let reduced = go_div (maxWorkers wp) 4 in
         if reduced < 1 then (Returns ([], Some ''system overloaded''), [])
         else processWithReducedConcurrency_run fetch urls reduced sched)
      else
        (let results = replicate (length urls) ContentResponse_zero in
         case run of
           SubmitTimeout \<Rightarrow> (Returns ([], Some ''job submission timeout''), [])
         | ProcessingTimeout arrived \<Rightarrow>
             (Returns (foldl (store_result fetch urls) results arrived,
                       Some ''processing timeout''), [])
         | Collected \<Rightarrow>
             (Returns (foldl (store_result fetch urls) results [0..<length urls], None), [])))"

text \<open>
  The largest number of goroutines that hold a slot at the same time in a sequence of
  events that starts with \<open>c\<close> holders, and the number of holders at its end.
\<close>

fun peak :: "nat \<Rightarrow> sem_event list \<Rightarrow> nat" where
  "peak c [] = c"
| "peak c (Acquire i # tr) = max c (peak (Suc c) tr)"
| "peak c (Release i # tr) = max c (peak (c - 1) tr)"

fun level :: "nat \<Rightarrow> sem_event list \<Rightarrow> nat" where
  "level c [] = c"
| "level c (Acquire i # tr) = level (Suc c) tr"
| "level c (Release i # tr) = level (c - 1) tr"

text \<open>
  The invariant of a run: \<open>results\<close> has one entry for every URL, and the entry of
  every goroutine that has finished is the response for its URL.
\<close>

definition sem_inv ::
  "(string \<Rightarrow> ContentResponse) \<Rightarrow> string list \<Rightarrow> sem_state \<Rightarrow> bool" where
  "sem_inv fetch urls st \<longleftrightarrow>
     (case st of (waiting, holding, results) \<Rightarrow>
        length results = length urls \<and>
        (\<forall>i \<in> set waiting \<union> set holding. i < length urls) \<and>
        (\<forall>i < length urls. i \<notin> set waiting \<union> set holding
            \<longrightarrow> results ! i = fetch (urls ! i)))"

text \<open>The admission rule as the specification words it.\<close>

definition spec_accepts :: "WorkerPool \<Rightarrow> nat \<Rightarrow> bool" where
  "spec_accepts wp n \<longleftrightarrow>
     maxWorkers wp - activeJobs wp \<ge> max (int ((n + 9) div 10)) 2"

subsection \<open>The content endpoint\<close>

record ContentRequest =
  URL_req :: string
  URLs_req :: "string list"
  Concurrency :: int

record ContentBatchResponse =
  Results :: "ContentResponse list"
  Total :: int
  Success :: int
  Failed :: int

text \<open>
  \<open>HandleGetContent\<close>: the body is \<open>None\<close> when it does not decode as JSON;
  the answer is an HTTP error (status and message) or the batch with status 200.
\<close>

definition HandleGetContent ::
  "WorkerPool \<Rightarrow> (string \<Rightarrow> ContentResponse) \<Rightarrow> pool_run \<Rightarrow> ContentRequest option
     \<Rightarrow> (int \<times> string) + ContentBatchResponse" where
  "HandleGetContent GlobalPool fetch run body =
     (case body of
        None \<Rightarrow> Inl (400, ''Invalid JSON'')
      | Some req \<Rightarrow>
          (case (if length (URLs_req req) > 0 then Some (URLs_req req)
                 else if URL_req req \<noteq> [] then Some [URL_req req]
                 else None) of
             None \<Rightarrow> Inl (400, ''Either 'url' or 'urls' is required'')
           | Some urls \<Rightarrow>
               (case ProcessContentURLs GlobalPool fetch run urls of
                  (results, Some err) \<Rightarrow>
                    if err = ''system overloaded''
                      then Inl (503, ''Service temporarily unavailable'')
                    else Inl (500, err)
                | (results, None) \<Rightarrow>
                    Inr \<lparr>Results = results, Total = int (length urls),
                         Success = int (length (filter (\<lambda>r. Error r = []) results)),
                         Failed = int (length (filter (\<lambda>r. Error r \<noteq> []) results))\<rparr>)))"

section \<open>The crawl orchestrator\<close>

record CrawlRequest =
  URL_crawl :: string
  JobID :: string
  Depth :: int
  Workers :: int
  Delay :: string
  MaxURLs :: int
  EnableSitemap :: bool
  EnableHTML :: bool
  EnableHeadless :: bool
  HeadlessTimeout :: int
  WaitForJS :: bool

record CrawlSettings =
  Workers_s :: int
  Delay_s :: string
  Depth_s :: int

text \<open>
  The result without its object id, its time stamp, its duration and its rate, which
  come from the clock.
\<close>

record CrawlResult =
  TargetURL :: string
  TotalURLs :: int
  Settings :: CrawlSettings
  URLs :: "string list"

text \<open>An event without its progress text and its time stamp.\<close>

record CrawlEvent =
  Type :: string
  JobID_e :: string
  URL_e :: string
  Total_e :: int
  Error_e :: string
  Tier :: string

definition event :: "string \<Rightarrow> string \<Rightarrow> string \<Rightarrow> CrawlEvent" where
  "event ty jobID tier =
     \<lparr>Type = ty, JobID_e = jobID, URL_e = [], Total_e = 0, Error_e = [], Tier = tier\<rparr>"

record JobStatus =
  ID :: string
  Status :: string
  Progress :: string
  Result :: "CrawlResult option"
  Error_j :: string
  CreatedAt :: int
  UpdatedAt :: int
  Request :: "CrawlRequest option"

text \<open>
  What a job's executor does, in program order. \<open>PublishCall\<close> is a call of
  \<open>PublishCrawlEvent\<close>, which starts a goroutine that publishes on the bus if the
  channel is there; \<open>StoreUpdate\<close> is the call of \<open>UpdateJobInMongoDB\<close>;
  \<open>Invoke\<close> marks the start of a tier; the others are the steps of the handler's
  goroutine on the registry.
\<close>

datatype step =
    PublishCall CrawlEvent
  | Invoke string
  | JobsLock
  | JobsUnlock
  | SetStatus string
  | SetError string
  | SetResult CrawlResult
  | SetUpdatedAt int
  | StoreUpdate JobStatus

subsection \<open>Deduplication\<close>

fun removeDuplicateURLs_loop ::
  "(string \<Rightarrow> bool) \<Rightarrow> string list \<Rightarrow> string list \<Rightarrow> string list" where
  "removeDuplicateURLs_loop seen unique [] = unique"
| "removeDuplicateURLs_loop seen unique (url # urls) =
     (if \<not> seen url
        then removeDuplicateURLs_loop (seen(url := True)) (unique @ [url]) urls
      else removeDuplicateURLs_loop seen unique urls)"

definition removeDuplicateURLs :: "string list \<Rightarrow> string list" where
  "removeDuplicateURLs urls = removeDuplicateURLs_loop (\<lambda>url. False) [] urls"

subsection \<open>The HTML walker\<close>

text \<open>
  The collector's callbacks run concurrently, and the link callback works on the shared
  set and list under one mutex; the walk is modelled as the sequence of callbacks in the
  order in which they take effect. \<open>Found\<close> is an anchor that passed
  \<open>cleanURL\<close>, \<open>shouldSkipURL\<close> and \<open>url.Parse\<close>, as its parsed absolute
  URL and the depth of the request it was found on; \<open>Emitted\<close> is an event
  published by one of the other callbacks.
\<close>

record Link =
  link_Scheme :: string
  link_Host :: string
  link_Path :: string
  link_RawQuery :: string

datatype callback = Found Link int | Emitted CrawlEvent

record walker =
  foundURLs :: "string \<Rightarrow> bool"
  urlList :: "string list"
  stopped :: bool
  emitted :: "CrawlEvent list"

definition clean_link :: "Link \<Rightarrow> string" where
  "clean_link linkURL =
     (let cleanURL = link_Scheme linkURL @ ''://'' @ link_Host linkURL @ link_Path linkURL
      in if link_RawQuery linkURL \<noteq> [] then cleanURL @ ''?'' @ link_RawQuery linkURL
         else cleanURL)"

fun on_callback :: "string list \<Rightarrow> int \<Rightarrow> string \<Rightarrow> walker \<Rightarrow> callback \<Rightarrow> walker" where
  "on_callback allowedDomains maxURLs jobID w (Emitted e) = w\<lparr>emitted := emitted w @ [e]\<rparr>"
| "on_callback allowedDomains maxURLs jobID w (Found linkURL depth) =
     (let isAllowed = (link_Host linkURL \<in> set allowedDomains) in
      if isAllowed then
        (let cleanURL = clean_link linkURL in
         if \<not> foundURLs w cleanURL \<and> int (length (urlList w)) < maxURLs \<and> \<not> stopped w then
           (let w = w\<lparr>foundURLs := (foundURLs w)(cleanURL := True),
                       urlList := urlList w @ [cleanURL]\<rparr>;
                currentTotal = int (length (urlList w))
            in if currentTotal \<ge> maxURLs then w\<lparr>stopped := True\<rparr>
               else w\<lparr>emitted := emitted w @
                      [(event ''url_discovered'' jobID [])\<lparr>URL_e := cleanURL,
                         Total_e := currentTotal\<rparr>]\<rparr>)
         else w)
      else w)"

text \<open>
  What the orchestrator reaches outside the program: the network of the prober,
  \<open>ParseRobotsTxt\<close> (by the number of the call, since the two calls are two
  fetches), sitemap discovery, the parsing of one sitemap, the error of the collector's
  first visit, and the callbacks of a walk. Each gives the events it publishes with its
  result.
\<close>

record crawl_env =
  net :: net_env
  ParseRobotsTxt :: "nat \<Rightarrow> string \<Rightarrow> CrawlEvent list \<times> string list"
  DiscoverSitemapsWithFallback :: "string \<Rightarrow> string list \<Rightarrow> CrawlEvent list \<times> string list"
  ParseSitemap :: "string \<Rightarrow> CrawlEvent list \<times> (string + string list)"
  Visit :: "string \<Rightarrow> string option"
  callbacks :: "string \<Rightarrow> callback list"

definition allowedDomains_of :: "string \<Rightarrow> string list" where
  "allowedDomains_of baseDomain =
     (let allowedDomains = [baseDomain] in
      if HasPrefix baseDomain ''www.'' then allowedDomains @ [drop 4 baseDomain]
      else allowedDomains @ [''www.'' @ baseDomain])"

definition crawlWebsiteWithEvents ::
  "crawl_env \<Rightarrow> string \<Rightarrow> int \<Rightarrow> int \<Rightarrow> string \<Rightarrow> int \<Rightarrow> string
     \<Rightarrow> CrawlEvent list \<times> (string + CrawlResult)" where
  "crawlWebsiteWithEvents env targetURL depth workers delayStr maxURLs jobID =
     (let (actualURL, fallbackInfo) = FindAccessibleURL (net env) targetURL in
      if \<not> Success_f fallbackInfo
        then ([], Inl (''URL and all fallbacks are inaccessible: '' @ Error_f fallbackInfo))
      else case Parse (net env) actualURL of
        None \<Rightarrow> ([], Inl ''error parsing actual URL: parse error'')
      | Some parsedURL \<Rightarrow>
          (let baseDomain = Host parsedURL;
               allowedDomains = allowedDomains_of baseDomain
           in case Visit env actualURL of
                Some err \<Rightarrow> ([], Inl (''error visiting URL: '' @ err))
              | None \<Rightarrow>
                  (let w = foldl (on_callback allowedDomains maxURLs jobID)
                             \<lparr>foundURLs = (\<lambda>url. False), urlList = [], stopped = False,
                              emitted = []\<rparr>
                             (callbacks env actualURL);
                       finalURLList = urlList w;
                       finalCount = int (length (urlList w))
                   in (emitted w,
                       Inr \<lparr>TargetURL = actualURL, TotalURLs = finalCount,
                            Settings = \<lparr>Workers_s = workers, Delay_s = delayStr,
                                        Depth_s = depth\<rparr>,
                            URLs = finalURLList\<rparr>))))"

definition CrawlWithHTML ::
  "crawl_env \<Rightarrow> string \<Rightarrow> CrawlRequest \<Rightarrow> string \<Rightarrow> CrawlEvent list \<times> (string + string list)" where
  "CrawlWithHTML env targetURL config jobID =
     (case crawlWebsiteWithEvents env targetURL (Depth config) (Workers config)
             (Delay config) (MaxURLs config) jobID of
        (evs, Inl err) \<Rightarrow> (evs, Inl err)
      | (evs, Inr result) \<Rightarrow> (evs, Inr (URLs result)))"

subsection \<open>The sitemap tier\<close>

fun parse_sitemaps ::
  "crawl_env \<Rightarrow> string \<Rightarrow> CrawlEvent list \<Rightarrow> string list \<Rightarrow> string list
     \<Rightarrow> CrawlEvent list \<times> string list" where
  "parse_sitemaps env jobID evs allURLs [] = (evs, allURLs)"
| "parse_sitemaps env jobID evs allURLs (sitemapURL # rest) =
     (case ParseSitemap env sitemapURL of
        (pe, Inl err) \<Rightarrow>
          parse_sitemaps env jobID
            (evs @ pe @ [(event ''error'' jobID ''sitemap'')\<lparr>Error_e := err\<rparr>]) allURLs rest
      | (pe, Inr urls) \<Rightarrow>
          parse_sitemaps env jobID (evs @ pe) (allURLs @ urls) rest)"

definition CrawlWithSitemapsAndFallback ::
  "crawl_env \<Rightarrow> string \<Rightarrow> string \<Rightarrow> string list \<Rightarrow> CrawlEvent list \<times> (string + string list)" where
  "CrawlWithSitemapsAndFallback env targetURL jobID robotsSitemaps =
     (let (de, sitemapURLs) = DiscoverSitemapsWithFallback env targetURL robotsSitemaps in
      if length sitemapURLs = 0
        then (de @ [event ''progress'' jobID ''sitemap''], Inr [])
      else
        (let (pe, allURLs) = parse_sitemaps env jobID de [] sitemapURLs;
             uniqueURLs = removeDuplicateURLs allURLs
         in (pe @ [(event ''progress'' jobID ''sitemap'')\<lparr>Total_e := int (length uniqueURLs)\<rparr>],
             Inr uniqueURLs)))"

subsection \<open>\<open>CrawlWebsiteWithTiers\<close>, block by block\<close>

definition enableSitemap :: "CrawlRequest \<Rightarrow> bool" where
  "enableSitemap crawlConfig \<longleftrightarrow>
     EnableSitemap crawlConfig \<or>
     (\<not> EnableSitemap crawlConfig \<and> \<not> EnableHTML crawlConfig \<and> \<not> EnableHeadless crawlConfig)"

definition enableHTML :: "CrawlRequest \<Rightarrow> bool" where
  "enableHTML crawlConfig \<longleftrightarrow>
     EnableHTML crawlConfig \<or>
     (\<not> EnableSitemap crawlConfig \<and> \<not> EnableHTML crawlConfig \<and> \<not> EnableHeadless crawlConfig)"

definition shouldFallbackToHTML :: "string list \<Rightarrow> CrawlRequest \<Rightarrow> bool" where
  "shouldFallbackToHTML currentURLs config \<longleftrightarrow> length currentURLs < 10"

definition shouldFallbackToHeadless :: "string list \<Rightarrow> CrawlRequest \<Rightarrow> bool" where
  "shouldFallbackToHeadless currentURLs config \<longleftrightarrow> length currentURLs < 5"

text \<open>
  The reachability block: the steps, the URL to crawl, the prober's record, and whether
  the function returns its error here.
\<close>

definition reach_block ::
  "crawl_env \<Rightarrow> string \<Rightarrow> string \<Rightarrow> step list \<times> string \<times> URLFallback \<times> bool" where
  "reach_block env targetURL jobID =
     (let (actualURL, fallbackInfo) = FindAccessibleURL (net env) targetURL in
      if \<not> Success_f fallbackInfo then
        (let (re, robotsSitemaps) = ParseRobotsTxt env 0 targetURL;
             steps = PublishCall (event ''progress'' jobID ''sitemap'') # map PublishCall re
         in if length robotsSitemaps > 0
              then (steps @ [PublishCall (event ''progress'' jobID ''sitemap'')],
                    targetURL, fallbackInfo, False)
            else (steps @ [PublishCall ((event ''error'' jobID [])
                                         \<lparr>Error_e := Error_f fallbackInfo\<rparr>)],
                  actualURL, fallbackInfo, True))
      else ([], actualURL, fallbackInfo, False))"

text \<open>Tier 1: the steps and \<open>allURLs\<close> after the block.\<close>

definition sitemap_block ::
  "crawl_env \<Rightarrow> string \<Rightarrow> CrawlRequest \<Rightarrow> string \<Rightarrow> string \<Rightarrow> URLFallback
     \<Rightarrow> step list \<times> string list" where
  "sitemap_block env targetURL crawlConfig jobID actualURL fallbackInfo =
     (if enableSitemap crawlConfig then
        (let (re, robotsSitemaps) =
               (if \<not> Success_f fallbackInfo then ParseRobotsTxt env 1 targetURL else ([], []));
             steps = [PublishCall (event ''tier_switch'' jobID ''sitemap''), Invoke ''sitemap'']
                       @ map PublishCall re
         in case CrawlWithSitemapsAndFallback env actualURL jobID robotsSitemaps of
              (se, Inl err) \<Rightarrow>
                (steps @ map PublishCall se
                   @ [PublishCall ((event ''error'' jobID ''sitemap'')\<lparr>Error_e := err\<rparr>)], [])
            | (se, Inr sitemapURLs) \<Rightarrow> (steps @ map PublishCall se, [] @ sitemapURLs))
      else ([], []))"

text \<open>Tier 2: the steps and \<open>allURLs\<close> after the block.\<close>

definition html_block ::
  "crawl_env \<Rightarrow> CrawlRequest \<Rightarrow> string \<Rightarrow> string \<Rightarrow> string list \<Rightarrow> step list \<times> string list" where
  "html_block env crawlConfig jobID actualURL allURLs =
     (let shouldUseHTML = (enableHTML crawlConfig \<and> shouldFallbackToHTML allURLs crawlConfig) in
      if shouldUseHTML then
        (let steps = [PublishCall (event ''tier_switch'' jobID ''html''), Invoke ''html''] in
         case CrawlWithHTML env actualURL crawlConfig jobID of
           (he, Inl err) \<Rightarrow>
             (steps @ map PublishCall he
                @ [PublishCall ((event ''error'' jobID ''html'')\<lparr>Error_e := err\<rparr>)], allURLs)
         | (he, Inr htmlURLs) \<Rightarrow>
             (let allURLs = removeDuplicateURLs (allURLs @ htmlURLs) in
              (steps @ map PublishCall he
                 @ [PublishCall ((event ''progress'' jobID ''html'')
                                  \<lparr>Total_e := int (length allURLs)\<rparr>)], allURLs)))
      else ([], allURLs))"

definition cap_block :: "CrawlRequest \<Rightarrow> string \<Rightarrow> string list \<Rightarrow> step list \<times> string list" where
  "cap_block crawlConfig jobID allURLs =
     (if MaxURLs crawlConfig > 0 \<and> int (length allURLs) > MaxURLs crawlConfig
        then ([PublishCall (event ''progress'' jobID [])],
              take (nat (MaxURLs crawlConfig)) allURLs)
      else ([], allURLs))"

definition CrawlWebsiteWithTiers ::
  "crawl_env \<Rightarrow> string \<Rightarrow> CrawlRequest \<Rightarrow> string \<Rightarrow> step list \<times> (string + CrawlResult)" where
  "CrawlWebsiteWithTiers env targetURL crawlConfig jobID =
     (let (s0, actualURL, fallbackInfo, failed) = reach_block env targetURL jobID in
      if failed
        then (s0, Inl (''URL and all fallbacks are inaccessible: '' @ Error_f fallbackInfo))
      else
        (let s1 = (if FallbackURL fallbackInfo \<noteq> OriginalURL fallbackInfo
                   then [PublishCall (event ''progress'' jobID [])] else [])
                  @ [PublishCall (event ''progress'' jobID [])];
             (s2, allURLs) = sitemap_block env targetURL crawlConfig jobID actualURL fallbackInfo;
             (s3, allURLs) = html_block env crawlConfig jobID actualURL allURLs;
             (s4, allURLs) = cap_block crawlConfig jobID allURLs;
             result = \<lparr>TargetURL = actualURL, TotalURLs = int (length allURLs),
                       Settings = \<lparr>Workers_s = Workers crawlConfig, Delay_s = Delay crawlConfig,
                                   Depth_s = Depth crawlConfig\<rparr>,
                       URLs = allURLs\<rparr>
         in (s0 @ s1 @ s2 @ s3 @ s4
               @ [PublishCall ((event ''completed'' jobID [])\<lparr>Total_e := int (length allURLs)\<rparr>)],
             Inr result)))"

section \<open>The crawl handler\<close>

text \<open>The defaults and the clamp that \<open>HandleCrawl\<close> applies to a decoded request.\<close>

definition set_defaults :: "CrawlRequest \<Rightarrow> CrawlRequest" where
  "set_defaults req =
     (let req = (if Depth req = 0 then req\<lparr>Depth := 1\<rparr> else req);
          req = (if Workers req = 0 then req\<lparr>Workers := 10\<rparr> else req);
          req = (if Delay req = [] then req\<lparr>Delay := ''200ms''\<rparr> else req);
          req = (if MaxURLs req = 0 then req\<lparr>MaxURLs := 1000\<rparr> else req);
          req = (if MaxURLs req > 5000 then req\<lparr>MaxURLs := 5000\<rparr> else req);
          req = (if HeadlessTimeout req = 0 then req\<lparr>HeadlessTimeout := 30\<rparr> else req)
      in req)"

text \<open>
  The handler up to the start of the goroutine: an HTTP error, or the job it created.
  The body is \<open>None\<close> when it does not decode; \<open>fresh\<close> is the generated object
  id, \<open>now\<close> the clock; only the keys of the active-jobs map matter here.
\<close>

definition HandleCrawl ::
  "(string \<Rightarrow> 'a option) \<Rightarrow> string \<Rightarrow> int \<Rightarrow> CrawlRequest option \<Rightarrow> (int \<times> string) + JobStatus" where
  "HandleCrawl ActiveJobs fresh now body =
     (case body of
        None \<Rightarrow> Inl (400, ''Invalid JSON'')
      | Some req \<Rightarrow>
          if URL_crawl req = [] then Inl (400, ''URL is required'')
          else
            (let req = set_defaults req;
                 job = (\<lambda>jobID. \<lparr>ID = jobID, Status = ''running'', Progress = ''Starting crawl...'',
                                 Result = None, Error_j = [], CreatedAt = now, UpdatedAt = now,
                                 Request = Some req\<rparr>)
             in if JobID req \<noteq> [] then
                  (if \<not> isValidJobID (JobID req)
                     then Inl (400, ''Invalid job_id format. Use alphanumeric characters, hyphens, and underscores only'')
                   else if ActiveJobs (JobID req) \<noteq> None
                     then Inl (409, ''Job ID already exists. Choose a different job_id or omit it for auto-generation'')
                   else Inr (job (JobID req)))
                else Inr (job fresh)))"

text \<open>
  The goroutine that \<open>HandleCrawl\<close> starts for an accepted job: its steps in program
  order and the job record at its end.
\<close>

definition crawl_job :: "crawl_env \<Rightarrow> int \<Rightarrow> CrawlRequest \<Rightarrow> JobStatus \<Rightarrow> step list \<times> JobStatus" where
  "crawl_job env now req job =
     (let jobID = ID job;
          (cs, r) = CrawlWebsiteWithTiers env (URL_crawl req) req jobID;
          (ms, job) =
            (case r of
               Inl err \<Rightarrow>
                 ([SetStatus ''failed'', SetError err],
                  job\<lparr>Status := ''failed'', Error_j := err\<rparr>)
             | Inr result \<Rightarrow>
                 ([SetStatus ''completed'', SetResult result,
                   PublishCall ((event ''completed'' jobID [])
                                 \<lparr>Total_e := int (length (URLs result))\<rparr>)],
                  job\<lparr>Status := ''completed'', Result := Some result\<rparr>));
          job = job\<lparr>UpdatedAt := now\<rparr>
      in (PublishCall (event ''progress'' jobID []) # cs @ [JobsLock] @ ms
            @ [SetUpdatedAt now, StoreUpdate job, JobsUnlock],
          job))"

subsection \<open>The publisher and its goroutines\<close>

text \<open>
  \<open>PublishCrawlEvent\<close> reads the global \<open>config.RabbitChannel\<close>, which is
  nil while RabbitMQ is not connected and can be closed; its state at the n-th call of
  the publisher is given from outside, like the result of \<open>json.Marshal\<close> (an error
  or the body). The call returns without publishing when the channel is nil or closed or
  the event does not marshal; otherwise it starts a goroutine that publishes the message
  of the event. \<open>PublishCrawlEvent bus n ev\<close> is the event of the goroutine
  started, if one is.
\<close>

datatype channel = ChanNil | ChanClosed | ChanOpen

record bus_env =
  RabbitChannel :: "nat \<Rightarrow> channel"
  Marshal :: "CrawlEvent \<Rightarrow> string + string"

definition PublishCrawlEvent :: "bus_env \<Rightarrow> nat \<Rightarrow> CrawlEvent \<Rightarrow> CrawlEvent option" where
  "PublishCrawlEvent bus n ev =
     (if RabbitChannel bus n = ChanNil then None
      else if RabbitChannel bus n = ChanClosed then None
      else case Marshal bus ev of
        Inl err \<Rightarrow> None
      | Inr body \<Rightarrow> Some ev)"

text \<open>
  What can be observed of a run: a message on the bus, a publishing goroutine whose
  \<open>Publish\<close> returned an error (which is logged, the message is lost), or a step of
  the executor other than a call of the publisher. \<open>is_run bus n prog pending tr\<close>
  holds when \<open>tr\<close> is an interleaving in which the executor performs \<open>prog\<close>,
  its calls of the publisher being numbered from \<open>n\<close>, and every publishing
  goroutine, those in \<open>pending\<close> and those started on the way, publishes or loses
  its message at some point after its start.
\<close>

datatype obs = Bus CrawlEvent | Lost CrawlEvent | Did step

fun is_run :: "bus_env \<Rightarrow> nat \<Rightarrow> step list \<Rightarrow> CrawlEvent list \<Rightarrow> obs list \<Rightarrow> bool" where
  "is_run bus n (PublishCall e # prog) pending tr =
     is_run bus (Suc n) prog
       (pending @ (case PublishCrawlEvent bus n e of Some m \<Rightarrow> [m] | None \<Rightarrow> [])) tr"
| "is_run bus n prog pending (Bus e # tr) =
     (e \<in> set pending \<and> is_run bus n prog (remove1 e pending) tr)"
| "is_run bus n prog pending (Lost e # tr) =
     (e \<in> set pending \<and> is_run bus n prog (remove1 e pending) tr)"
| "is_run bus n (s # prog) pending (Did s' # tr) = (s = s' \<and> is_run bus n prog pending tr)"
| "is_run bus n [] pending [] = (pending = [])"
| "is_run bus n prog pending tr = False"

text \<open>
  The ordering the specification asks for, on an observed run: a terminal event
  (\<open>completed\<close> or \<open>error\<close>) appears on the bus only once the store write of the
  job has happened.
\<close>

definition terminal_event :: "CrawlEvent \<Rightarrow> bool" where
  "terminal_event e \<longleftrightarrow> Type e = ''completed'' \<or> Type e = ''error''"

fun spec_published_after_update :: "bool \<Rightarrow> obs list \<Rightarrow> bool" where
  "spec_published_after_update written [] = True"
| "spec_published_after_update written (Bus e # tr) =
     ((terminal_event e \<longrightarrow> written) \<and> spec_published_after_update written tr)"
| "spec_published_after_update written (Lost e # tr) =
     spec_published_after_update written tr"
| "spec_published_after_update written (Did (StoreUpdate job) # tr) =
     spec_published_after_update True tr"
| "spec_published_after_update written (Did s # tr) =
     spec_published_after_update written tr"

subsection \<open>Observers of a crawl\<close>




definition merged_URLs :: "crawl_env \<Rightarrow> string \<Rightarrow> CrawlRequest \<Rightarrow> string \<Rightarrow> string list" where
  "merged_URLs env targetURL crawlConfig jobID =
     (let (s0, actualURL, fallbackInfo, failed) = reach_block env targetURL jobID;
          (s2, allURLs) = sitemap_block env targetURL crawlConfig jobID actualURL fallbackInfo;
          (s3, allURLs) = html_block env crawlConfig jobID actualURL allURLs
      in allURLs)"

fun registry_step :: "step \<Rightarrow> bool" where
  "registry_step (PublishCall e) = False"
| "registry_step (Invoke t) = False"
| "registry_step s = True"

subsection \<open>Concrete environments\<close>

text \<open>
  A run in which the rendering of the first tier fails and its plain HTTP GET brings a
  text of four bytes, the pooled browser renders a page whose Markdown is two bytes
  long, and the aggressive HTTP loop would have fetched 150 bytes.
\<close>

definition plain_net :: net_env where
  "plain_net =
     \<lparr>Parse = (\<lambda>s. if s = ''http://a.test/''
                    then Some \<lparr>Scheme = ''http'', Host = ''a.test'', Rest = ''/''\<rparr> else None),
      String = (\<lambda>u. Scheme u @ ''://'' @ Host u @ Rest u),
      Get = (\<lambda>s. Inr (200, ''200 OK''))\<rparr>"

definition short_env :: content_env where
  "short_env =
     \<lparr>TrimSpace = ascii_TrimSpace,
      ToLower = ascii_ToLower,
      prober = plain_net,
      tryJSDOMRendering = (\<lambda>u. Inl ''failed to launch browser''),
      NewRequest = (\<lambda>u. None),
      Do = (\<lambda>u. Inr \<lparr>resp_StatusCode = 200, resp_Status = ''200 OK'',
                        resp_Header = [(''Content-Type'', [''text/plain''])],
                        resp_Body = Inr ''stub''\<rparr>),
      poolInitialized = True,
      browserPoolGet = Inr (),
      scrapeWithPooledBrowser = (\<lambda>u. Inr (replicate 120 CHR ''x'')),
      tryAggressiveHTTP =
        (\<lambda>u. ContentResponse_zero\<lparr>URL := u, StatusCode := 200,
               Markdown := replicate 150 CHR ''a''\<rparr>),
      convertToMarkdown = (\<lambda>h. Inr ''hi'')\<rparr>"

text \<open>
  The same site when it answers the plain GET with 403 and the pooled browser cannot
  navigate; and a site whose rendering succeeds with a long page.
\<close>

definition blocked_env :: content_env where
  "blocked_env =
     short_env\<lparr>Do := (\<lambda>u. Inr \<lparr>resp_StatusCode = 403, resp_Status = ''403 Forbidden'',
                              resp_Header = [], resp_Body = Inr []\<rparr>),
       scrapeWithPooledBrowser := (\<lambda>u. Inl ''failed to navigate to URL'')\<rparr>"

definition rendered_env :: content_env where
  "rendered_env =
     short_env\<lparr>tryJSDOMRendering := (\<lambda>u. Inr (replicate 200 CHR ''h'')),
       convertToMarkdown := (\<lambda>h. Inr (replicate 150 CHR ''m''))\<rparr>"

definition busy_pool :: WorkerPool where
  "busy_pool = \<lparr>maxWorkers = 5, activeJobs = 5, browserPoolSize = 2\<rparr>"

text \<open>
  A site that answers only on \<open>https://www.ex.test/\<close>; every other address
  gives 503.
\<close>

definition probe_env :: net_env where
  "probe_env =
     \<lparr>Parse = (\<lambda>s.
        if s = ''http://ex.test/''
          then Some \<lparr>Scheme = ''http'', Host = ''ex.test'', Rest = ''/''\<rparr>
        else if s = ''http://www.ex.test/''
          then Some \<lparr>Scheme = ''http'', Host = ''www.ex.test'', Rest = ''/''\<rparr>
        else if s = ''https://ex.test/''
          then Some \<lparr>Scheme = ''https'', Host = ''ex.test'', Rest = ''/''\<rparr>
        else if s = ''https://www.ex.test/''
          then Some \<lparr>Scheme = ''https'', Host = ''www.ex.test'', Rest = ''/''\<rparr>
        else None),
      String = (\<lambda>u. Scheme u @ ''://'' @ Host u @ Rest u),
      Get = (\<lambda>s. if s = ''https://www.ex.test/'' then Inr (200, ''200 OK'')
                  else Inr (503, ''503 Service Unavailable''))\<rparr>"

text \<open>
  A site whose sitemap lists one page of another host, and a request that leaves every
  field to its default.
\<close>

definition site_net :: net_env where
  "site_net =
     \<lparr>Parse = (\<lambda>s.
        if s = ''https://www.ex.test/''
          then Some \<lparr>Scheme = ''https'', Host = ''www.ex.test'', Rest = ''/''\<rparr>
        else if s = ''https://other.test/a''
          then Some \<lparr>Scheme = ''https'', Host = ''other.test'', Rest = ''/a''\<rparr>
        else None),
      String = (\<lambda>u. Scheme u @ ''://'' @ Host u @ Rest u),
      Get = (\<lambda>s. if s = ''https://www.ex.test/'' then Inr (200, ''200 OK'')
                  else Inr (404, ''404 Not Found''))\<rparr>"

definition site_env :: crawl_env where
  "site_env =
     \<lparr>net = site_net,
      ParseRobotsTxt = (\<lambda>n u. ([], [])),
      DiscoverSitemapsWithFallback = (\<lambda>u r. ([], [''https://www.ex.test/sitemap.xml''])),
      ParseSitemap = (\<lambda>u. ([], Inr [''https://other.test/a''])),
      Visit = (\<lambda>u. None),
      callbacks = (\<lambda>u. [])\<rparr>"

definition plain_request :: CrawlRequest where
  "plain_request =
     \<lparr>URL_crawl = ''https://www.ex.test/'', JobID = [], Depth = 0, Workers = 0, Delay = [],
      MaxURLs = 0, EnableSitemap = False, EnableHTML = False, EnableHeadless = False,
      HeadlessTimeout = 0, WaitForJS = False\<rparr>"


definition three_env :: crawl_env where
  "three_env =
     site_env\<lparr>ParseSitemap := (\<lambda>u. ([], Inr [''https://www.ex.test/a'',
        ''https://www.ex.test/b'', ''https://www.ex.test/c'']))\<rparr>"

definition three_result :: CrawlResult where
  "three_result =
     \<lparr>TargetURL = ''https://www.ex.test/'', TotalURLs = 2,
      Settings = \<lparr>Workers_s = 10, Delay_s = ''200ms'', Depth_s = 1\<rparr>,
      URLs = [''https://www.ex.test/a'', ''https://www.ex.test/b'']\<rparr>"

section \<open>Recovery at startup\<close>

text \<open>
  The registry is a map from job ids to pointers, so the store of job records they point
  to is explicit: \<open>heap\<close>, indexed by address. The document store is its list of
  documents, \<open>None\<close> while the collection is not initialised.

  \<open>for _, job := range recoveredJobs\<close> takes \<open>&job\<close> twice. What \<open>&job\<close>
  is depends on the language version of the module, which is declared in \<open>go.mod\<close>
  (the README asks for Go 1.21 or later): before 1.22 the loop has one variable
  \<open>job\<close> for all its iterations, from 1.22 on each iteration has its own.
\<close>

datatype loopvar = SharedVar | PerIteration

record server =
  ActiveJobs :: "string \<Rightarrow> nat option"
  heap :: "JobStatus list"
  JobsCollection :: "JobStatus list option"

definition JobStatus_zero :: JobStatus where
  "JobStatus_zero =
     \<lparr>ID = [], Status = [], Progress = [], Result = None, Error_j = [], CreatedAt = 0,
      UpdatedAt = 0, Request = None\<rparr>"

text \<open>\<open>UpdateOne\<close> with the filter on \<open>_id\<close> and \<open>$set\<close> of the whole record.\<close>

fun UpdateOne :: "JobStatus \<Rightarrow> JobStatus list \<Rightarrow> JobStatus list" where
  "UpdateOne job [] = []"
| "UpdateOne job (doc # docs) =
     (if ID doc = ID job then job # docs else doc # UpdateOne job docs)"

definition UpdateJobInMongoDB :: "nat \<Rightarrow> server \<Rightarrow> server" where
  "UpdateJobInMongoDB a srv =
     (case JobsCollection srv of
        None \<Rightarrow> srv
      | Some docs \<Rightarrow> srv\<lparr>JobsCollection := Some (UpdateOne (heap srv ! a) docs)\<rparr>)"

text \<open>
  The loop of \<open>LoadActiveJobsFromMongoDB\<close>: \<open>var\<close> is the address of the
  loop variable when it is shared, \<open>i\<close> counts the readings of the clock, and
  \<open>started\<close> collects the argument of each \<open>go UpdateJobInMongoDB(&job)\<close>.
\<close>

fun recover_loop ::
  "loopvar \<Rightarrow> (nat \<Rightarrow> int) \<Rightarrow> nat \<Rightarrow> nat \<Rightarrow> server \<times> nat list \<Rightarrow> JobStatus list
     \<Rightarrow> server \<times> nat list" where
  "recover_loop lv clock var i (srv, started) [] = (srv, started)"
| "recover_loop lv clock var i (srv, started) (elem # rest) =
     (let (srv, a) =
            (case lv of
               SharedVar \<Rightarrow> (srv\<lparr>heap := (heap srv)[var := elem]\<rparr>, var)
             | PerIteration \<Rightarrow> (srv\<lparr>heap := heap srv @ [elem]\<rparr>, length (heap srv)));
          job = (heap srv ! a)\<lparr>Status := ''failed'',
                  Error_j := ''Job interrupted by server restart'', UpdatedAt := clock i\<rparr>;
          srv = srv\<lparr>heap := (heap srv)[a := job]\<rparr>;
          srv = srv\<lparr>ActiveJobs := (ActiveJobs srv)(ID job \<mapsto> a)\<rparr>
      in recover_loop lv clock var (i + 1) (srv, started @ [a]) rest)"

text \<open>
  \<open>scan_ok\<close> is false when \<open>Find\<close> or the decoding of the cursor fails. The
  goroutines started in the loop run once the loop is over, each reading the record its
  pointer leads to at that moment.
\<close>

definition LoadActiveJobsFromMongoDB ::
  "loopvar \<Rightarrow> (nat \<Rightarrow> int) \<Rightarrow> bool \<Rightarrow> server \<Rightarrow> server" where
  "LoadActiveJobsFromMongoDB lv clock scan_ok srv =
     (case JobsCollection srv of
        None \<Rightarrow> srv
      | Some docs \<Rightarrow>
          if \<not> scan_ok then srv
          else
            (let recoveredJobs = filter (\<lambda>doc. Status doc = ''running'') docs;
                 var = length (heap srv);
                 srv = (case lv of
                          SharedVar \<Rightarrow> srv\<lparr>heap := heap srv @ [JobStatus_zero]\<rparr>
                        | PerIteration \<Rightarrow> srv);
                 (srv, started) = recover_loop lv clock var 0 (srv, []) recoveredJobs
             in foldl (\<lambda>srv a. UpdateJobInMongoDB a srv) srv started))"

text \<open>\<open>HandleJobStatus\<close>: memory first, then the store, else 404.\<close>

definition HandleJobStatus :: "server \<Rightarrow> string \<Rightarrow> (int \<times> string) + JobStatus" where
  "HandleJobStatus srv jobID =
     (case ActiveJobs srv jobID of
        Some a \<Rightarrow> Inr (heap srv ! a)
      | None \<Rightarrow>
          (case JobsCollection srv of
             None \<Rightarrow> Inl (404, ''Job not found'')
           | Some docs \<Rightarrow>
               (case find (\<lambda>doc. ID doc = jobID) docs of
                  None \<Rightarrow> Inl (404, ''Job not found'')
                | Some job \<Rightarrow> Inr job)))"

text \<open>A store found at restart with two running jobs and a completed one.\<close>

definition stored_job :: "string \<Rightarrow> string \<Rightarrow> JobStatus" where
  "stored_job jobID st =
     \<lparr>ID = jobID, Status = st, Progress = ''Starting crawl...'', Result = None, Error_j = [],
      CreatedAt = 1, UpdatedAt = 1, Request = None\<rparr>"

definition restart_server :: server where
  "restart_server =
     \<lparr>ActiveJobs = Map.empty, heap = [],
      JobsCollection = Some [stored_job ''job-a'' ''running'', stored_job ''job-b'' ''running'',
                             stored_job ''job-c'' ''completed'']\<rparr>"

definition failed_job :: "string \<Rightarrow> int \<Rightarrow> JobStatus" where
  "failed_job jobID t = (stored_job jobID ''running'')\<lparr>Status := ''failed'',
       Error_j := ''Job interrupted by server restart'', UpdatedAt := t\<rparr>"


section \<open>Further observers and concrete runs\<close>

text \<open>The host scope as the specification words it, for a seed and a URL of the result.\<close>

definition spec_same_site :: "net_env \<Rightarrow> string \<Rightarrow> string \<Rightarrow> bool" where
  "spec_same_site env seed u =
     (case (Parse env seed, Parse env u) of
        (Some s, Some p) \<Rightarrow> Host p = Host s \<or> Host p = toggle_www (Host s)
      | _ \<Rightarrow> False)"

text \<open>
  The run in which every publishing goroutine publishes its message as soon as it is
  started, and the run in which they all publish after the executor's last step.
\<close>

fun eager :: "bus_env \<Rightarrow> nat \<Rightarrow> step list \<Rightarrow> obs list" where
  "eager bus n [] = []"
| "eager bus n (PublishCall e # prog) =
     (case PublishCrawlEvent bus n e of Some m \<Rightarrow> [Bus m] | None \<Rightarrow> [])
       @ eager bus (Suc n) prog"
| "eager bus n (s # prog) = Did s # eager bus n prog"

fun publish_call :: "step \<Rightarrow> bool" where
  "publish_call (PublishCall e) = True"
| "publish_call s = False"

fun spawned :: "bus_env \<Rightarrow> nat \<Rightarrow> step list \<Rightarrow> CrawlEvent list" where
  "spawned bus n [] = []"
| "spawned bus n (PublishCall e # prog) =
     (case PublishCrawlEvent bus n e of Some m \<Rightarrow> [m] | None \<Rightarrow> [])
       @ spawned bus (Suc n) prog"
| "spawned bus n (s # prog) = spawned bus n prog"

definition lazy :: "bus_env \<Rightarrow> nat \<Rightarrow> step list \<Rightarrow> obs list" where
  "lazy bus n prog =
     map Did (filter (\<lambda>s. \<not> publish_call s) prog) @ map Bus (spawned bus n prog)"

text \<open>A bus that is connected and stays so, with a marshaller that does not fail.\<close>

definition open_bus :: bus_env where
  "open_bus = \<lparr>RabbitChannel = (\<lambda>n. ChanOpen), Marshal = (\<lambda>e. Inr ''{}'')\<rparr>"

text \<open>The job that the handler creates for \<open>plain_request\<close>, and its crawl on \<open>site_env\<close>.\<close>

definition site_job :: JobStatus where
  "site_job =
     \<lparr>ID = ''j1'', Status = ''running'', Progress = ''Starting crawl...'', Result = None,
      Error_j = [], CreatedAt = 7, UpdatedAt = 7, Request = Some (set_defaults plain_request)\<rparr>"

definition site_result :: CrawlResult where
  "site_result =
     \<lparr>TargetURL = ''https://www.ex.test/'', TotalURLs = 1,
      Settings = \<lparr>Workers_s = 10, Delay_s = ''200ms'', Depth_s = 1\<rparr>,
      URLs = [''https://other.test/a'']\<rparr>"

definition site_trace :: "obs list" where
  "site_trace =
     [Bus (event ''progress'' ''j1'' []),
      Bus (event ''progress'' ''j1'' []),
      Bus (event ''tier_switch'' ''j1'' ''sitemap''),
      Did (Invoke ''sitemap''),
      Bus ((event ''progress'' ''j1'' ''sitemap'')\<lparr>Total_e := 1\<rparr>),
      Bus (event ''tier_switch'' ''j1'' ''html''),
      Did (Invoke ''html''),
      Bus ((event ''progress'' ''j1'' ''html'')\<lparr>Total_e := 1\<rparr>),
      Bus ((event ''completed'' ''j1'' [])\<lparr>Total_e := 1\<rparr>),
      Did JobsLock,
      Did (SetStatus ''completed''),
      Did (SetResult site_result),
      Bus ((event ''completed'' ''j1'' [])\<lparr>Total_e := 1\<rparr>),
      Did (SetUpdatedAt 9),
      Did (StoreUpdate (site_job\<lparr>Status := ''completed'', Result := Some site_result,
                                UpdatedAt := 9\<rparr>)),
      Did JobsUnlock]"

text \<open>
  A site without sitemaps whose pages link to itself, to its bare host, and to another
  site.
\<close>

definition walk_env :: crawl_env where
  "walk_env =
     site_env\<lparr>DiscoverSitemapsWithFallback := (\<lambda>u r. ([], [])),
       callbacks := (\<lambda>u.
         [Found \<lparr>link_Scheme = ''https'', link_Host = ''www.ex.test'', link_Path = ''/a'',
                 link_RawQuery = []\<rparr> 0,
          Found \<lparr>link_Scheme = ''https'', link_Host = ''evil.test'', link_Path = ''/b'',
                 link_RawQuery = []\<rparr> 0,
          Found \<lparr>link_Scheme = ''https'', link_Host = ''ex.test'', link_Path = ''/c'',
                 link_RawQuery = ''q=1''\<rparr> 0,
          Found \<lparr>link_Scheme = ''https'', link_Host = ''www.ex.test'', link_Path = ''/a'',
                 link_RawQuery = []\<rparr> 1])\<rparr>"

section \<open>Properties of the job-id check\<close>








lemma DecodeRune_ascii: "b < 128 \<Longrightarrow> DecodeRune (b # bs) = (b, 1)"
  by simp












section \<open>Properties of the worker pool\<close>

lemma go_div_nonneg: "0 \<le> a \<Longrightarrow> 0 < b \<Longrightarrow> go_div a b = a div b"
  by (cases "a = 0") (simp_all add: go_div_def)

lemma calculateOptimalWorkers_range:
  "5 \<le> calculateOptimalWorkers cpuCount memSys \<and>
   calculateOptimalWorkers cpuCount memSys \<le> 50"
  by (simp add: calculateOptimalWorkers_def Let_def)

lemma reduced_pos: "5 \<le> m \<Longrightarrow> 1 \<le> go_div m 4"
  by (simp add: go_div_nonneg)

lemma CanAcceptWork_min:
  "CanAcceptWork wp (int n) \<longleftrightarrow> min (int n div 10) 2 \<le> maxWorkers wp - activeJobs wp"
  by (auto simp: CanAcceptWork_def Let_def go_div_nonneg)

lemma overloaded_iff:
  "snd (ProcessContentURLs wp fetch run urls) = Some ''system overloaded'' \<longleftrightarrow>
     \<not> CanAcceptWork wp (int (length urls)) \<and> go_div (maxWorkers wp) 4 < 1"
  by (auto simp: ProcessContentURLs_def admit_def Let_def processWithReducedConcurrency_def
      split: pool_run.splits)

text \<open>
  C2, as stated, fails: with no idle worker at all (5 of 5 busy) a batch of five URLs is
  accepted for normal processing, where the stated rule asks for two idle workers.
\<close>

theorem admission_spec_counterexample:
  "CanAcceptWork busy_pool 5 \<and> \<not> spec_accepts busy_pool 5 \<and>
   admit busy_pool [''a'', ''b'', ''c'', ''d'', ''e''] = Accepted"
  by (simp add: CanAcceptWork_def spec_accepts_def go_div_def busy_pool_def admit_def)

lemma peak_ge: "c \<le> peak c tr"
  by (induction c tr rule: peak.induct) auto

lemma peak_append: "peak c (tr @ tr') = max (peak c tr) (peak (level c tr) tr')"
proof (induction c tr rule: peak.induct)
  case (1 c)
  then show ?case using peak_ge [of c tr'] by simp
qed (simp_all add: max.assoc)

lemma sem_step_inv:
  assumes "sem_inv fetch urls st" "sem_step fetch urls limit i st = (ev, st')"
  shows "sem_inv fetch urls st'"
proof -
  obtain waiting holding results where st: "st = (waiting, holding, results)"
    by (cases st) auto
  show ?thesis
    using assms unfolding st sem_inv_def
    by (auto split: if_splits simp: nth_list_update)
qed

lemma sem_exec_inv:
  "sem_inv fetch urls st \<Longrightarrow> sem_exec fetch urls limit sched st = (tr, st')
     \<Longrightarrow> sem_inv fetch urls st'"
proof (induction sched arbitrary: st tr)
  case Nil
  then show ?case by simp
next
  case (Cons i sched)
  obtain ev st1 where s: "sem_step fetch urls limit i st = (ev, st1)"
    by (cases "sem_step fetch urls limit i st") auto
  obtain tr1 st2 where e: "sem_exec fetch urls limit sched st1 = (tr1, st2)"
    by (cases "sem_exec fetch urls limit sched st1") auto
  from Cons.prems(2) s e have "st2 = st'" by simp
  with e have "sem_exec fetch urls limit sched st1 = (tr1, st')" by simp
  from Cons.IH [OF sem_step_inv [OF Cons.prems(1) s] this] show ?case .
qed

lemma sem_drain_returns:
  assumes "0 < limit" "sem_inv fetch urls st"
  shows "fst (sem_drain fetch urls limit st) = Returns (map fetch urls, None)"
  using assms
proof (induction fetch urls limit st rule: sem_drain.induct)
  case (1 fetch urls limit waiting h holding results)
  have "sem_inv fetch urls (waiting, holding, results[h := fetch (urls ! h)])"
    using "1.prems"(2) unfolding sem_inv_def by (auto simp: nth_list_update)
  with 1 show ?case by (simp add: split_beta)
next
  case (2 fetch urls limit w waiting results)
  have "sem_inv fetch urls (waiting, [w], results)"
    using "2.prems"(2) unfolding sem_inv_def by auto
  with 2 show ?case by (simp add: split_beta)
next
  case (3 fetch urls limit results)
  then have "results = map fetch urls"
    unfolding sem_inv_def by (auto intro: nth_equalityI)
  then show ?case by simp
qed

lemma sem_step_level:
  assumes "sem_step fetch urls limit i (waiting, holding, results) = (ev, (w', h', r'))"
    "distinct holding" "int (length holding) \<le> limit"
  shows "distinct h' \<and> int (length h') \<le> limit \<and> level (length holding) ev = length h' \<and>
     int (peak (length holding) ev) \<le> limit"
  using assms
  by (auto split: if_splits simp: distinct_removeAll length_removeAll_less
      distinct_remove1_removeAll [symmetric] length_remove1)


lemma level_append: "level c (tr @ tr') = level (level c tr) tr'"
  by (induction c tr rule: level.induct) auto

lemma sem_exec_level:
  assumes "sem_exec fetch urls limit sched (waiting, holding, results) = (tr, (w', h', r'))"
    "distinct holding" "int (length holding) \<le> limit"
  shows "int (length h') \<le> limit \<and> level (length holding) tr = length h' \<and>
     int (peak (length holding) tr) \<le> limit"
  using assms
proof (induction sched arbitrary: waiting holding results tr)
  case Nil
  then show ?case by simp
next
  case (Cons i sched)
  obtain ev w1 h1 r1 where
    s: "sem_step fetch urls limit i (waiting, holding, results) = (ev, (w1, h1, r1))"
    by (metis prod_cases3 surj_pair)
  obtain tr1 st2 where e: "sem_exec fetch urls limit sched (w1, h1, r1) = (tr1, st2)"
    by (cases "sem_exec fetch urls limit sched (w1, h1, r1)") auto
  from Cons.prems(1) s e have eq: "st2 = (w', h', r')" "tr = ev @ tr1" by simp_all
  note l = sem_step_level [OF s Cons.prems(2) Cons.prems(3)]
  from e eq have "sem_exec fetch urls limit sched (w1, h1, r1) = (tr1, (w', h', r'))"
    by simp
  from Cons.IH [OF this] l
  have "int (length h') \<le> limit \<and> level (length h1) tr1 = length h' \<and>
     int (peak (length h1) tr1) \<le> limit"
    by simp
  with l show ?case unfolding eq(2) by (simp add: peak_append level_append max_def)
qed

lemma sem_drain_peak:
  assumes "0 < limit" "int (length holding) \<le> limit"
  shows "int (peak (length holding) (snd (sem_drain fetch urls limit (waiting, holding, results))))
     \<le> limit"
  using assms
proof (induction fetch urls limit "(waiting, holding, results)"
    arbitrary: waiting holding results rule: sem_drain.induct)
  case (1 fetch urls limit waiting h holding results)
  then show ?case by (simp add: split_beta)
next
  case (2 fetch urls limit w waiting results)
  then show ?case by (simp add: split_beta)
next
  case (3 fetch urls limit results)
  then show ?case by simp
qed

lemma reduced_run:
  assumes "1 \<le> limit"
  shows "fst (processWithReducedConcurrency_run fetch urls limit sched) =
       Returns (map fetch urls, None) \<and>
     int (peak 0 (snd (processWithReducedConcurrency_run fetch urls limit sched))) \<le> limit"
proof -
  let ?st0 = "([0..<length urls], [], replicate (length urls) ContentResponse_zero)"
  obtain tr w h r where e: "sem_exec fetch urls limit sched ?st0 = (tr, (w, h, r))"
    by (metis prod_cases3 surj_pair)
  have "sem_inv fetch urls ?st0" by (simp add: sem_inv_def)
  from sem_exec_inv [OF this e] have inv: "sem_inv fetch urls (w, h, r)" .
  from sem_exec_level [OF e] assms
  have l: "int (length h) \<le> limit" "level 0 tr = length h" "int (peak 0 tr) \<le> limit"
    by simp_all
  from assms have pos: "0 < limit" by simp
  have run: "processWithReducedConcurrency_run fetch urls limit sched =
      (fst (sem_drain fetch urls limit (w, h, r)),
       tr @ snd (sem_drain fetch urls limit (w, h, r)))"
    using assms e by (simp add: processWithReducedConcurrency_run_def split_beta)
  show ?thesis
    unfolding run
    using sem_drain_returns [OF pos inv] sem_drain_peak [OF pos l(1), of fetch urls w r] l
    by (simp add: peak_append)
qed

lemma greedy_prefix:
  "j \<le> m \<Longrightarrow> m \<le> n \<Longrightarrow> int m \<le> limit \<Longrightarrow>
     \<exists>rest. fst (sem_exec fetch urls limit [j..<n] ([j..<n], [0..<j], r))
        = map Acquire [j..<m] @ rest"
proof (induction "m - j" arbitrary: j)
  case 0
  then show ?case by simp
next
  case (Suc k)
  then have j: "j < m" "j < n" "int j < limit" by simp_all
  then have u: "[j..<n] = j # [Suc j..<n]" "[j..<m] = j # [Suc j..<m]"
    by (simp_all add: upt_conv_Cons)
  have step: "sem_step fetch urls limit j ([j..<n], [0..<j], r) =
      ([Acquire j], ([Suc j..<n], [0..<Suc j], r))"
    using j by (simp add: u(1))
  have "k = m - Suc j" "Suc j \<le> m" using Suc.hyps(2) j by simp_all
  from Suc.hyps(1) [OF this Suc.prems(2) Suc.prems(3)]
  obtain rest where
    "fst (sem_exec fetch urls limit [Suc j..<n] ([Suc j..<n], [0..<Suc j], r))
       = map Acquire [Suc j..<m] @ rest" ..
  then have "fst (sem_exec fetch urls limit (j # [Suc j..<n]) ([j..<n], [0..<j], r))
       = map Acquire (j # [Suc j..<m]) @ rest"
    unfolding sem_exec.simps step by (simp add: split_beta)
  then show ?case unfolding u [symmetric] by blast
qed

lemma peak_acquires: "c + length xs \<le> peak c (map Acquire xs @ rest)"
proof (induction xs arbitrary: c)
  case Nil
  then show ?case by (simp add: peak_ge)
next
  case (Cons x xs)
  from Cons [of "Suc c"] show ?case by simp
qed

lemma greedy_peak:
  assumes "1 \<le> limit"
  shows "min (nat limit) (length urls)
     \<le> peak 0 (snd (processWithReducedConcurrency_run fetch urls limit [0..<length urls]))"
proof -
  let ?n = "length urls"
  let ?m = "min (nat limit) ?n"
  let ?st0 = "([0..<?n], [], replicate ?n ContentResponse_zero)"
  have "\<exists>rest. fst (sem_exec fetch urls limit [0..<?n] ([0..<?n], [0..<0], replicate ?n ContentResponse_zero))
        = map Acquire [0..<?m] @ rest"
    using assms by (intro greedy_prefix) simp_all
  then obtain rest where
    p: "fst (sem_exec fetch urls limit [0..<?n] ?st0) = map Acquire [0..<?m] @ rest"
    by auto
  have "snd (processWithReducedConcurrency_run fetch urls limit [0..<?n]) =
      map Acquire [0..<?m] @ rest @ snd (sem_drain fetch urls limit
        (snd (sem_exec fetch urls limit [0..<?n] ?st0)))"
    using assms p by (simp add: processWithReducedConcurrency_run_def split_beta Let_def)
  with peak_acquires [of 0 "[0..<?m]"] show ?thesis by simp
qed

lemma reduced_run_blocks:
  "processWithReducedConcurrency_run fetch (u # us) 0 [] = (Blocks, [])"
proof -
  have "[0..<length (u # us)] = 0 # [1..<length (u # us)]" by (simp add: upt_rec)
  then show ?thesis by (simp add: processWithReducedConcurrency_run_def del: upt_Suc)
qed


lemma run_value:
  "fst (ProcessContentURLs_run wp fetch run sched urls) =
     Returns (ProcessContentURLs wp fetch run urls)"
proof (cases "CanAcceptWork wp (int (length urls))")
  case True
  then show ?thesis
    by (simp add: ProcessContentURLs_run_def ProcessContentURLs_def admit_def Let_def
        split: pool_run.splits)
next
  case False
  show ?thesis
  proof (cases "go_div (maxWorkers wp) 4 < 1")
    case True
    with False show ?thesis
      by (simp add: ProcessContentURLs_run_def ProcessContentURLs_def admit_def Let_def)
  next
    case False
    then have "1 \<le> go_div (maxWorkers wp) 4" by simp
    from reduced_run [OF this, of fetch urls sched] False \<open>\<not> CanAcceptWork wp (int (length urls))\<close>
    show ?thesis
      by (simp add: ProcessContentURLs_run_def ProcessContentURLs_def admit_def Let_def
          processWithReducedConcurrency_def)
  qed
qed

lemma reduced_value:
  "\<not> CanAcceptWork wp (int (length urls)) \<Longrightarrow> 1 \<le> go_div (maxWorkers wp) 4 \<Longrightarrow>
     ProcessContentURLs wp fetch run urls = (map fetch urls, None)"
  by (simp add: ProcessContentURLs_def admit_def Let_def processWithReducedConcurrency_def)

lemma reduced_trace:
  "\<not> CanAcceptWork wp (int (length urls)) \<Longrightarrow> 1 \<le> go_div (maxWorkers wp) 4 \<Longrightarrow>
     snd (ProcessContentURLs_run wp fetch run sched urls) =
       snd (processWithReducedConcurrency_run fetch urls (go_div (maxWorkers wp) 4) sched)"
  by (simp add: ProcessContentURLs_run_def Let_def)

lemma normal_trace:
  "CanAcceptWork wp (int (length urls)) \<Longrightarrow>
     snd (ProcessContentURLs_run wp fetch run sched urls) = []"
  by (simp add: ProcessContentURLs_run_def Let_def split: pool_run.splits)

text \<open>
  C2, amended. A batch of n URLs is accepted for normal processing exactly when the idle
  workers number at least min(floor(n/10), 2), the test being a disjunction of the two
  bounds. A run of \<open>ProcessContentURLs\<close> returns, under every schedule, and the
  normal path does not touch the channel of the reduced path. A rejected batch with
  maxWorkers/4 at least 1 is processed with the reduced limit maxWorkers/4: every URL is
  processed, under every schedule at most maxWorkers/4 of them at the same time, and
  under the schedule that starts the goroutines in order that bound (or the size of the
  batch, if smaller) is reached. The error ``system overloaded'' is returned exactly when
  the batch is rejected and maxWorkers/4 is below 1.
\<close>

theorem admission_rule:
  "(CanAcceptWork wp (int (length urls)) \<longleftrightarrow>
      min (int (length urls) div 10) 2 \<le> maxWorkers wp - activeJobs wp) \<and>
   fst (ProcessContentURLs_run wp fetch run sched urls) =
      Returns (ProcessContentURLs wp fetch run urls) \<and>
   (CanAcceptWork wp (int (length urls)) \<longrightarrow>
      snd (ProcessContentURLs_run wp fetch run sched urls) = []) \<and>
   (\<not> CanAcceptWork wp (int (length urls)) \<and> 1 \<le> go_div (maxWorkers wp) 4 \<longrightarrow>
      ProcessContentURLs wp fetch run urls = (map fetch urls, None) \<and>
      snd (ProcessContentURLs_run wp fetch run sched urls) =
        snd (processWithReducedConcurrency_run fetch urls (go_div (maxWorkers wp) 4) sched) \<and>
      int (peak 0 (snd (ProcessContentURLs_run wp fetch run sched urls)))
        \<le> go_div (maxWorkers wp) 4 \<and>
      min (nat (go_div (maxWorkers wp) 4)) (length urls)
        \<le> peak 0 (snd (ProcessContentURLs_run wp fetch run [0..<length urls] urls))) \<and>
   (snd (ProcessContentURLs wp fetch run urls) = Some ''system overloaded'' \<longleftrightarrow>
      \<not> CanAcceptWork wp (int (length urls)) \<and> go_div (maxWorkers wp) 4 < 1)"
proof -
  have "int (peak 0 (snd (ProcessContentURLs_run wp fetch run sched urls)))
        \<le> go_div (maxWorkers wp) 4 \<and>
      min (nat (go_div (maxWorkers wp) 4)) (length urls)
        \<le> peak 0 (snd (ProcessContentURLs_run wp fetch run [0..<length urls] urls))"
    if r: "\<not> CanAcceptWork wp (int (length urls))" "1 \<le> go_div (maxWorkers wp) 4"
    unfolding reduced_trace [OF r]
    using reduced_run [OF r(2), of fetch urls sched] greedy_peak [OF r(2), of urls fetch]
    by simp
  then show ?thesis
    using CanAcceptWork_min [of wp "length urls"] overloaded_iff [of wp fetch run urls]
      run_value [of wp fetch run sched urls] normal_trace [of wp urls fetch run sched]
      reduced_value [of wp urls fetch run] reduced_trace [of wp urls fetch run sched]
    by blast
qed

theorem admission_rule_witness:
  "\<not> CanAcceptWork \<lparr>maxWorkers = 8, activeJobs = 8, browserPoolSize = 4\<rparr> 30 \<and>
   go_div 8 4 = 2 \<and>
   ProcessContentURLs \<lparr>maxWorkers = 8, activeJobs = 8, browserPoolSize = 4\<rparr>
       (\<lambda>u. ContentResponse_zero) Collected (replicate 30 ''u'')
     = (replicate 30 ContentResponse_zero, None) \<and>
   peak 0 (snd (ProcessContentURLs_run \<lparr>maxWorkers = 8, activeJobs = 8, browserPoolSize = 4\<rparr>
       (\<lambda>u. ContentResponse_zero) Collected [0..<30] (replicate 30 ''u''))) = 2"
proof -
  let ?wp = "\<lparr>maxWorkers = 8, activeJobs = 8, browserPoolSize = 4\<rparr>"
  let ?f = "\<lambda>u::string. ContentResponse_zero"
  let ?us = "replicate 30 ''u''"
  have a: "\<not> CanAcceptWork ?wp (int (length ?us))" "go_div (maxWorkers ?wp) 4 = 2"
    "1 \<le> go_div (maxWorkers ?wp) 4"
    by (simp_all add: CanAcceptWork_def go_div_def)
  note A = admission_rule [where wp = ?wp and urls = ?us and fetch = ?f and run = Collected
      and sched = "[0..<30]", THEN conjunct2, THEN conjunct2, THEN conjunct2, THEN conjunct1,
      THEN mp, OF conjI [OF a(1) a(3)]]
  from A [THEN conjunct1]
  have v: "ProcessContentURLs ?wp ?f Collected ?us = (replicate 30 ContentResponse_zero, None)"
    by simp
  from A [THEN conjunct2, THEN conjunct2, THEN conjunct1]
  have u: "peak 0 (snd (ProcessContentURLs_run ?wp ?f Collected [0..<30] ?us)) \<le> 2"
    unfolding a(2) by simp
  from A [THEN conjunct2, THEN conjunct2, THEN conjunct2]
  have l: "2 \<le> peak 0 (snd (ProcessContentURLs_run ?wp ?f Collected [0..<30] ?us))"
    unfolding a(2) by simp
  from a v u l show ?thesis by simp
qed

text \<open>
  C10. The pool is created with \<open>calculateOptimalWorkers\<close> workers, a number
  between 5 and 50, so maxWorkers/4 is at least 1: whatever the number of active jobs
  and the batch, \<open>ProcessContentURLs\<close> does not return ``system overloaded'' and
  the content endpoint does not answer 503.
\<close>

theorem pool_never_overloaded:
  "snd (ProcessContentURLs ((InitializeGlobalPool cpuCount memSys)\<lparr>activeJobs := a\<rparr>)
          fetch run urls) \<noteq> Some ''system overloaded'' \<and>
   (\<forall>code msg.
      HandleGetContent ((InitializeGlobalPool cpuCount memSys)\<lparr>activeJobs := a\<rparr>)
          fetch run body = Inl (code, msg) \<longrightarrow> code \<noteq> 503)"
proof -
  let ?wp = "(InitializeGlobalPool cpuCount memSys)\<lparr>activeJobs := a\<rparr>"
  have "1 \<le> go_div (maxWorkers ?wp) 4"
    using calculateOptimalWorkers_range [of cpuCount memSys]
    by (simp add: InitializeGlobalPool_def Let_def reduced_pos)
  then have no: "snd (ProcessContentURLs ?wp fetch run us) \<noteq> Some ''system overloaded''"
    for us
    by (simp add: overloaded_iff)
  have no2: "ProcessContentURLs ?wp fetch run us \<noteq> (rs, Some ''system overloaded'')"
    for us rs
    using no [of us] by (metis snd_conv)
  have "code \<noteq> 503"
    if "HandleGetContent ?wp fetch run body = Inl (code, msg)" for code msg
    using that no2
    by (auto simp: HandleGetContent_def split: option.splits if_splits prod.splits)
  with no show ?thesis by blast
qed

theorem pool_never_overloaded_witness:
  "HandleGetContent ((InitializeGlobalPool 1 0)\<lparr>activeJobs := 5\<rparr>)
       (\<lambda>u. ContentResponse_zero) SubmitTimeout None = Inl (400, ''Invalid JSON'') \<and>
   (400::int) \<noteq> 503 \<and>
   calculateOptimalWorkers 1 0 = 5"
  using pool_never_overloaded [of 1 0 5 "\<lambda>u. ContentResponse_zero" SubmitTimeout "[]" None]
  by (simp add: HandleGetContent_def calculateOptimalWorkers_def wrap64_def)

section \<open>Properties of the content extractor\<close>

lemma trim_long: "ascii_TrimSpace (replicate 150 CHR ''a'') = replicate 150 CHR ''a''"
  by code_simp

lemma trim_long_m: "ascii_TrimSpace (replicate 150 CHR ''m'') = replicate 150 CHR ''m''"
  by code_simp

lemma trim_short: "ascii_TrimSpace ''stub'' = ''stub''" "ascii_TrimSpace ''hi'' = ''hi''"
  by (simp_all add: ascii_TrimSpace_def ascii_space_def)

lemma plain_net_probe:
  "FindAccessibleURL plain_net ''http://a.test/'' =
     (''http://a.test/'',
      \<lparr>OriginalURL = ''http://a.test/'', FallbackURL = ''http://a.test/'',
       Success_f = True, Error_f = []\<rparr>)"
  by (simp add: FindAccessibleURL_def CheckURLAccessibility_def plain_net_def Let_def)

lemma short_env_first_tier:
  "tryHTMLScraping short_env ''http://a.test/'' =
     \<lparr>URL = ''http://a.test/'', StatusCode = 200, ContentType = ''text/plain'',
      Markdown = ''stub'', Sizes = \<lparr>Markdown_size = 4\<rparr>,
      Headers = [(''Content-Type'', ''text/plain'')], Error = []\<rparr>"
  by (simp add: tryHTMLScraping_def rendered_html_def short_env_def plain_net_probe
      ContentResponse_zero_def Header_Get_def ascii_ToLower_def Let_def)

lemma short_env_run:
  "Markdown (processURL short_env ''http://a.test/'') = ''hi'' \<and>
   Error (processURL short_env ''http://a.test/'') = [] \<and>
   \<not> spec_good short_env (processURL short_env ''http://a.test/'') \<and>
   spec_good short_env (tryAggressiveHTTP short_env ''http://a.test/'')"
proof -
  have t: "TrimSpace short_env = ascii_TrimSpace" by (simp add: short_env_def)
  have b: "tryBrowserScraping short_env ''http://a.test/'' =
     \<lparr>URL = ''http://a.test/'', StatusCode = 200, ContentType = ''text/html'',
      Markdown = ''hi'', Sizes = \<lparr>Markdown_size = 2\<rparr>,
      Headers = [(''Content-Type'', ''text/html''), (''X-Scraped-With'', ''Browser'')],
      Error = []\<rparr>"
    by (simp add: tryBrowserScraping_def short_env_def ContentResponse_zero_def Let_def)
  have a: "tryAggressiveHTTP short_env ''http://a.test/'' =
     ContentResponse_zero\<lparr>URL := ''http://a.test/'', StatusCode := 200,
               Markdown := replicate 150 CHR ''a''\<rparr>"
    by (simp add: short_env_def)
  show ?thesis
    unfolding processURL_def spec_good_def Let_def short_env_first_tier b a t
    by (simp add: trim_short trim_long ContentResponse_zero_def)
qed

text \<open>
  C7, as stated, fails: the response returned comes from the pooled browser with an
  empty error and two bytes of Markdown, although a later strategy (aggressive HTTP)
  yields an empty error and 150 bytes.
\<close>

theorem processURL_threshold_counterexample:
  "Error (processURL short_env ''http://a.test/'') = [] \<and>
   length (TrimSpace short_env (Markdown (processURL short_env ''http://a.test/''))) = 2 \<and>
   spec_good short_env (tryAggressiveHTTP short_env ''http://a.test/'')"
  using short_env_run by (simp add: short_env_def trim_short)

lemma first_tier_unreachable:
  "\<not> Success_f (snd (FindAccessibleURL (prober env) u)) \<Longrightarrow>
     tryHTMLScraping env u =
       ContentResponse_zero\<lparr>URL := fst (FindAccessibleURL (prober env) u),
         Error := Error_f (snd (FindAccessibleURL (prober env) u))\<rparr>"
  by (cases "FindAccessibleURL (prober env) u") (simp add: tryHTMLScraping_def Let_def)

lemma first_tier_rendered:
  assumes "Success_f (snd (FindAccessibleURL (prober env) u))"
    and "tryJSDOMRendering env (fst (FindAccessibleURL (prober env) u)) = Inr h"
    and "h \<noteq> []"
  shows "Error (tryHTMLScraping env u) = [] \<and>
     StatusCode (tryHTMLScraping env u) = 200 \<and>
     Markdown (tryHTMLScraping env u) =
       (case convertToMarkdown env h of
          Inr markdown \<Rightarrow> markdown
        | Inl err \<Rightarrow> ''Error converting JSDOM content to markdown: '' @ err) \<and>
     tryHTMLScraping (env\<lparr>NewRequest := r, Do := d\<rparr>) u = tryHTMLScraping env u"
  using assms
  by (cases "FindAccessibleURL (prober env) u")
    (simp add: tryHTMLScraping_def rendered_html_def Let_def ContentResponse_zero_def)

lemma first_tier_plain:
  assumes "Success_f (snd (FindAccessibleURL (prober env) u))"
    and "(\<exists>e. tryJSDOMRendering env (fst (FindAccessibleURL (prober env) u)) = Inl e) \<or>
         tryJSDOMRendering env (fst (FindAccessibleURL (prober env) u)) = Inr []"
    and "NewRequest env (fst (FindAccessibleURL (prober env) u)) = None"
    and "Do env (fst (FindAccessibleURL (prober env) u)) = Inr resp"
  shows "(resp_StatusCode resp = 403 \<or> resp_StatusCode resp = 429
            \<longrightarrow> Error (tryHTMLScraping env u) \<noteq> []) \<and>
     (resp_StatusCode resp \<noteq> 403 \<and> resp_StatusCode resp \<noteq> 429 \<and> resp_Body resp = Inr body
        \<longrightarrow> Error (tryHTMLScraping env u) = [] \<and>
            StatusCode (tryHTMLScraping env u) = resp_StatusCode resp \<and>
            Markdown (tryHTMLScraping env u) =
              (if Contains (ToLower env (Header_Get (resp_Header resp) ''Content-Type''))
                    ''text/html''
               then (case convertToMarkdown env body of
                       Inr markdown \<Rightarrow> markdown
                     | Inl err \<Rightarrow> ''Error converting to markdown: '' @ err)
               else body))"
  using assms
  by (cases "FindAccessibleURL (prober env) u")
    (auto simp: tryHTMLScraping_def rendered_html_def Let_def ContentResponse_zero_def)

lemma browser_tier_scraped:
  assumes "poolInitialized env" and "browserPoolGet env = Inr x"
    and "scrapeWithPooledBrowser env u = Inr h"
  shows "Error (tryBrowserScraping env u) = [] \<and>
     StatusCode (tryBrowserScraping env u) = 200 \<and>
     Markdown (tryBrowserScraping env u) =
       (case convertToMarkdown env h of
          Inr markdown \<Rightarrow> markdown
        | Inl err \<Rightarrow> ''Error converting to markdown: '' @ err) \<and>
     tryBrowserScraping (env\<lparr>tryAggressiveHTTP := ag\<rparr>) u = tryBrowserScraping env u"
  using assms
  by (simp add: tryBrowserScraping_def Let_def ContentResponse_zero_def)

lemma browser_tier_aggressive:
  assumes "poolInitialized env" and "browserPoolGet env = Inr x"
    and "scrapeWithPooledBrowser env u = Inl err"
  shows "tryBrowserScraping env u =
     (if Error (tryAggressiveHTTP env u) = [] then tryAggressiveHTTP env u
      else ContentResponse_zero\<lparr>URL := u,
             Error := ''Browser scraping failed: '' @ err
               @ '' (Aggressive HTTP also failed: '' @ Error (tryAggressiveHTTP env u)
               @ '')''\<rparr>)"
  using assms by (simp add: tryBrowserScraping_def Let_def)

lemma browser_tier_no_browser:
  assumes "\<not> poolInitialized env \<or> (\<exists>e. browserPoolGet env = Inl e)"
  shows "Error (tryBrowserScraping env u) \<noteq> [] \<and>
     tryBrowserScraping (env\<lparr>tryAggressiveHTTP := ag\<rparr>) u = tryBrowserScraping env u"
  using assms by (auto simp: tryBrowserScraping_def Let_def)

lemma first_tier_accepted:
  assumes "spec_good env (tryHTMLScraping env u)"
  shows "processURL env u = tryHTMLScraping env u \<and>
     processURL (env\<lparr>poolInitialized := p, browserPoolGet := g,
        scrapeWithPooledBrowser := sc, tryAggressiveHTTP := ag\<rparr>) u = processURL env u"
proof -
  let ?env' = "env\<lparr>poolInitialized := p, browserPoolGet := g,
        scrapeWithPooledBrowser := sc, tryAggressiveHTTP := ag\<rparr>"
  have same: "tryHTMLScraping ?env' u = tryHTMLScraping env u"
    by (cases "FindAccessibleURL (prober env) u")
      (simp add: tryHTMLScraping_def rendered_html_def Let_def
        cong: option.case_cong sum.case_cong if_cong)
  have "processURL env u = tryHTMLScraping env u"
    using assms by (simp add: processURL_def spec_good_def Let_def)
  moreover have "processURL ?env' u = tryHTMLScraping env u"
    using assms same by (simp add: processURL_def spec_good_def Let_def)
  ultimately show ?thesis by simp
qed

lemma first_tier_refused:
  assumes "\<not> spec_good env (tryHTMLScraping env u)"
  shows "(Error (tryBrowserScraping env u) = [] \<longrightarrow>
            processURL env u = tryBrowserScraping env u) \<and>
     (Error (tryBrowserScraping env u) \<noteq> [] \<longrightarrow>
        Error (processURL env u) \<noteq> [] \<and>
        processURL env u =
          (if Error (tryHTMLScraping env u) = [] then tryBrowserScraping env u
           else (tryHTMLScraping env u)\<lparr>Error := Error (tryHTMLScraping env u) @
             (if Contains (Error (tryBrowserScraping env u)) ''browser not available''
              then '' (Browser fallback unavailable: headless browser not available in this environment)''
              else '' (Browser fallback also failed: '' @ Error (tryBrowserScraping env u)
                     @ '')'')\<rparr>))"
  using assms by (auto simp: processURL_def spec_good_def Let_def)

text \<open>
  C7, amended. The first tier probes the URL and stops with the prober's error when no
  candidate is reachable; otherwise it takes the rendered fetch when that gives a
  non-empty page (the plain HTTP client is then not consulted) and the plain HTTP GET
  only when the rendering fails or is empty, a 403 or 429 answer being an error. The
  first tier's response is returned when its error is empty and its trimmed Markdown is
  longer than 100 bytes, and the browser tier is then not consulted. Otherwise the
  browser tier runs: the pooled browser, and aggressive HTTP only if the browser's
  scrape fails (not when the scrape succeeds, nor when there is no browser). Its
  response is returned whenever its error is empty, with no test of the length; when
  both tiers fail the first tier's response is returned with the browser tier's error
  appended to its own, or the browser tier's response if the first tier had no error.
\<close>

theorem processURL_rule:
  "(\<not> Success_f (snd (FindAccessibleURL (prober env) u)) \<longrightarrow>
      tryHTMLScraping env u =
        ContentResponse_zero\<lparr>URL := fst (FindAccessibleURL (prober env) u),
          Error := Error_f (snd (FindAccessibleURL (prober env) u))\<rparr>) \<and>
   (Success_f (snd (FindAccessibleURL (prober env) u)) \<and>
    tryJSDOMRendering env (fst (FindAccessibleURL (prober env) u)) = Inr h \<and> h \<noteq> [] \<longrightarrow>
      Error (tryHTMLScraping env u) = [] \<and>
      StatusCode (tryHTMLScraping env u) = 200 \<and>
      Markdown (tryHTMLScraping env u) =
        (case convertToMarkdown env h of
           Inr markdown \<Rightarrow> markdown
         | Inl err \<Rightarrow> ''Error converting JSDOM content to markdown: '' @ err) \<and>
      tryHTMLScraping (env\<lparr>NewRequest := r, Do := d\<rparr>) u = tryHTMLScraping env u) \<and>
   (Success_f (snd (FindAccessibleURL (prober env) u)) \<and>
    ((\<exists>e. tryJSDOMRendering env (fst (FindAccessibleURL (prober env) u)) = Inl e) \<or>
     tryJSDOMRendering env (fst (FindAccessibleURL (prober env) u)) = Inr []) \<and>
    NewRequest env (fst (FindAccessibleURL (prober env) u)) = None \<and>
    Do env (fst (FindAccessibleURL (prober env) u)) = Inr resp \<longrightarrow>
      (resp_StatusCode resp = 403 \<or> resp_StatusCode resp = 429
         \<longrightarrow> Error (tryHTMLScraping env u) \<noteq> []) \<and>
      (resp_StatusCode resp \<noteq> 403 \<and> resp_StatusCode resp \<noteq> 429 \<and> resp_Body resp = Inr body
         \<longrightarrow> Error (tryHTMLScraping env u) = [] \<and>
             StatusCode (tryHTMLScraping env u) = resp_StatusCode resp \<and>
             Markdown (tryHTMLScraping env u) =
               (if Contains (ToLower env (Header_Get (resp_Header resp) ''Content-Type''))
                     ''text/html''
                then (case convertToMarkdown env body of
                        Inr markdown \<Rightarrow> markdown
                      | Inl err \<Rightarrow> ''Error converting to markdown: '' @ err)
                else body))) \<and>
   (Error (tryHTMLScraping env u) = [] \<and>
    length (TrimSpace env (Markdown (tryHTMLScraping env u))) > 100 \<longrightarrow>
      processURL env u = tryHTMLScraping env u \<and>
      processURL (env\<lparr>poolInitialized := p, browserPoolGet := g,
         scrapeWithPooledBrowser := sc, tryAggressiveHTTP := ag\<rparr>) u = processURL env u) \<and>
   (\<not> (Error (tryHTMLScraping env u) = [] \<and>
       length (TrimSpace env (Markdown (tryHTMLScraping env u))) > 100) \<longrightarrow>
      (Error (tryBrowserScraping env u) = [] \<longrightarrow>
         processURL env u = tryBrowserScraping env u) \<and>
      (Error (tryBrowserScraping env u) \<noteq> [] \<longrightarrow>
         Error (processURL env u) \<noteq> [] \<and>
         processURL env u =
           (if Error (tryHTMLScraping env u) = [] then tryBrowserScraping env u
            else (tryHTMLScraping env u)\<lparr>Error := Error (tryHTMLScraping env u) @
              (if Contains (Error (tryBrowserScraping env u)) ''browser not available''
               then '' (Browser fallback unavailable: headless browser not available in this environment)''
               else '' (Browser fallback also failed: '' @ Error (tryBrowserScraping env u)
                      @ '')'')\<rparr>))) \<and>
   (poolInitialized env \<and> browserPoolGet env = Inr x \<and>
    scrapeWithPooledBrowser env u = Inr h' \<longrightarrow>
      Error (tryBrowserScraping env u) = [] \<and>
      StatusCode (tryBrowserScraping env u) = 200 \<and>
      Markdown (tryBrowserScraping env u) =
        (case convertToMarkdown env h' of
           Inr markdown \<Rightarrow> markdown
         | Inl err \<Rightarrow> ''Error converting to markdown: '' @ err) \<and>
      tryBrowserScraping (env\<lparr>tryAggressiveHTTP := ag\<rparr>) u = tryBrowserScraping env u) \<and>
   (poolInitialized env \<and> browserPoolGet env = Inr x \<and>
    scrapeWithPooledBrowser env u = Inl err \<longrightarrow>
      tryBrowserScraping env u =
        (if Error (tryAggressiveHTTP env u) = [] then tryAggressiveHTTP env u
         else ContentResponse_zero\<lparr>URL := u,
                Error := ''Browser scraping failed: '' @ err
                  @ '' (Aggressive HTTP also failed: '' @ Error (tryAggressiveHTTP env u)
                  @ '')''\<rparr>)) \<and>
   (\<not> poolInitialized env \<or> (\<exists>e. browserPoolGet env = Inl e) \<longrightarrow>
      Error (tryBrowserScraping env u) \<noteq> [] \<and>
      tryBrowserScraping (env\<lparr>tryAggressiveHTTP := ag\<rparr>) u = tryBrowserScraping env u)"
proof -
  have good: "spec_good env (tryHTMLScraping env u) \<longleftrightarrow>
      Error (tryHTMLScraping env u) = [] \<and>
      length (TrimSpace env (Markdown (tryHTMLScraping env u))) > 100"
    by (simp add: spec_good_def)
  show ?thesis
    unfolding good [symmetric]
    using first_tier_unreachable [of env u]
      first_tier_rendered [where env = env and u = u and h = h and r = r and d = d]
      first_tier_plain [where env = env and u = u and resp = resp and body = body]
      first_tier_accepted [where env = env and u = u and p = p and g = g and sc = sc
        and ag = ag]
      first_tier_refused [of env u]
      browser_tier_scraped [where env = env and x = x and u = u and h = h' and ag = ag]
      browser_tier_aggressive [where env = env and x = x and u = u and err = err]
      browser_tier_no_browser [where env = env and u = u and ag = ag]
    by blast
qed


theorem processURL_rule_witness:
  "processURL rendered_env ''http://a.test/'' = tryHTMLScraping rendered_env ''http://a.test/'' \<and>
   Markdown (processURL rendered_env ''http://a.test/'') = replicate 150 CHR ''m'' \<and>
   Markdown (tryHTMLScraping short_env ''http://a.test/'') = ''stub'' \<and>
   processURL short_env ''http://a.test/'' = tryBrowserScraping short_env ''http://a.test/'' \<and>
   Markdown (processURL short_env ''http://a.test/'') = ''hi'' \<and>
   Error (tryHTMLScraping blocked_env ''http://a.test/'') \<noteq> [] \<and>
   processURL blocked_env ''http://a.test/'' = tryAggressiveHTTP blocked_env ''http://a.test/'' \<and>
   Error (tryHTMLScraping short_env ''http://b.test/'') \<noteq> [] \<and>
   Error (processURL (short_env\<lparr>poolInitialized := False\<rparr>) ''http://b.test/'') \<noteq> []"
proof -
  let ?a = "''http://a.test/''"
  let ?b = "''http://b.test/''"
  let ?off = "short_env\<lparr>poolInitialized := False\<rparr>"
  let ?resp = "\<lparr>resp_StatusCode = 200, resp_Status = ''200 OK'',
                        resp_Header = [(''Content-Type'', [''text/plain''])],
                        resp_Body = Inr ''stub''\<rparr>"
  let ?resp403 = "\<lparr>resp_StatusCode = 403, resp_Status = ''403 Forbidden'',
                              resp_Header = [], resp_Body = Inr []\<rparr>"
  have pr: "prober rendered_env = plain_net" "prober short_env = plain_net"
    "prober blocked_env = plain_net" "prober ?off = plain_net"
    by (simp_all add: rendered_env_def blocked_env_def short_env_def)
  have tr: "TrimSpace rendered_env = ascii_TrimSpace" "TrimSpace short_env = ascii_TrimSpace"
    "TrimSpace blocked_env = ascii_TrimSpace"
    by (simp_all add: rendered_env_def blocked_env_def short_env_def)
  have pb: "\<not> Success_f (snd (FindAccessibleURL plain_net ?b))"
    "Error_f (snd (FindAccessibleURL plain_net ?b)) \<noteq> []"
    by (simp_all add: FindAccessibleURL_def CheckURLAccessibility_def GenerateFallbackURLs_def
        plain_net_def Let_def)
  note R = processURL_rule [where env = rendered_env and u = ?a
        and h = "replicate 200 CHR ''h''"]
  have "tryJSDOMRendering rendered_env ?a = Inr (replicate 200 CHR ''h'')"
    "convertToMarkdown rendered_env (replicate 200 CHR ''h'') = Inr (replicate 150 CHR ''m'')"
    by (simp_all add: rendered_env_def)
  with R [THEN conjunct2, THEN conjunct1]
  have r1: "Error (tryHTMLScraping rendered_env ?a) = [] \<and>
      Markdown (tryHTMLScraping rendered_env ?a) = replicate 150 CHR ''m''"
    by (simp add: pr plain_net_probe)
  with R [THEN conjunct2, THEN conjunct2, THEN conjunct2, THEN conjunct1]
  have r2: "processURL rendered_env ?a = tryHTMLScraping rendered_env ?a"
    by (simp add: tr trim_long_m)
  note S = processURL_rule [where env = short_env and u = ?a and resp = ?resp
        and body = "''stub''" and x = "()" and h' = "replicate 120 CHR ''x''"]
  have "tryJSDOMRendering short_env ?a = Inl ''failed to launch browser''"
    "NewRequest short_env ?a = None" "Do short_env ?a = Inr ?resp"
    "ToLower short_env ''text/plain'' = ''text/plain''"
    by (simp_all add: short_env_def ascii_ToLower_def)
  with S [THEN conjunct2, THEN conjunct2, THEN conjunct1]
  have s1: "Error (tryHTMLScraping short_env ?a) = [] \<and>
      Markdown (tryHTMLScraping short_env ?a) = ''stub''"
    by (simp add: pr plain_net_probe Header_Get_def)
  have "poolInitialized short_env" "browserPoolGet short_env = Inr ()"
    "scrapeWithPooledBrowser short_env ?a = Inr (replicate 120 CHR ''x'')"
    "convertToMarkdown short_env (replicate 120 CHR ''x'') = Inr ''hi''"
    by (simp_all add: short_env_def)
  with S [THEN conjunct2, THEN conjunct2, THEN conjunct2, THEN conjunct2, THEN conjunct2,
      THEN conjunct1]
  have s2: "Error (tryBrowserScraping short_env ?a) = [] \<and>
      Markdown (tryBrowserScraping short_env ?a) = ''hi''"
    by simp
  with S [THEN conjunct2, THEN conjunct2, THEN conjunct2, THEN conjunct2, THEN conjunct1] s1
  have s3: "processURL short_env ?a = tryBrowserScraping short_env ?a"
    by (simp add: tr trim_short)
  note B = processURL_rule [where env = blocked_env and u = ?a and resp = ?resp403
        and x = "()" and err = "''failed to navigate to URL''"]
  have "tryJSDOMRendering blocked_env ?a = Inl ''failed to launch browser''"
    "NewRequest blocked_env ?a = None" "Do blocked_env ?a = Inr ?resp403"
    by (simp_all add: blocked_env_def short_env_def)
  with B [THEN conjunct2, THEN conjunct2, THEN conjunct1]
  have b1: "Error (tryHTMLScraping blocked_env ?a) \<noteq> []"
    by (simp add: pr plain_net_probe)
  have b3: "poolInitialized blocked_env" "browserPoolGet blocked_env = Inr ()"
    "scrapeWithPooledBrowser blocked_env ?a = Inl ''failed to navigate to URL''"
    "Error (tryAggressiveHTTP blocked_env ?a) = []"
    by (simp_all add: blocked_env_def short_env_def ContentResponse_zero_def)
  with B [THEN conjunct2, THEN conjunct2, THEN conjunct2, THEN conjunct2, THEN conjunct2,
      THEN conjunct2, THEN conjunct1]
  have b2: "tryBrowserScraping blocked_env ?a = tryAggressiveHTTP blocked_env ?a"
    by simp
  with B [THEN conjunct2, THEN conjunct2, THEN conjunct2, THEN conjunct2, THEN conjunct1]
    b1 b3
  have b4: "processURL blocked_env ?a = tryAggressiveHTTP blocked_env ?a"
    by simp
  note U = processURL_rule [where env = "?off" and u = ?b]
  have u1: "Error (tryHTMLScraping short_env ?b) \<noteq> []"
    using processURL_rule [where env = short_env and u = ?b, THEN conjunct1] pb
    by (simp add: pr)
  have u2: "Error (tryHTMLScraping ?off ?b) \<noteq> []"
    using U [THEN conjunct1] pb by (simp add: pr)
  have u3: "Error (tryBrowserScraping ?off ?b) \<noteq> []"
    using U [THEN conjunct2, THEN conjunct2, THEN conjunct2, THEN conjunct2, THEN conjunct2,
      THEN conjunct2, THEN conjunct2]
    by simp
  have u4: "Error (processURL ?off ?b) \<noteq> []"
    using U [THEN conjunct2, THEN conjunct2, THEN conjunct2, THEN conjunct2, THEN conjunct1]
      u2 u3 by blast
  show ?thesis using r1 r2 s1 s2 s3 b1 b4 u1 u4 by simp
qed

section \<open>Properties of the reachability prober\<close>

lemma GenerateFallbackURLs_spec:
  "Parse env u = Some p \<Longrightarrow> GenerateFallbackURLs env u = spec_fallbacks env p"
  by (simp add: GenerateFallbackURLs_def spec_fallbacks_def toggle_www_def Let_def)

lemma fallback_loop_find:
  "fallback_loop env u info cs =
     (case find (reachable env) cs of
        None \<Rightarrow> (u, info)
      | Some c \<Rightarrow> (c, info\<lparr>FallbackURL := c, Success_f := True\<rparr>))"
  by (induction cs) (auto simp: reachable_def split: option.splits)

lemma probe_env_run:
  "FindAccessibleURL probe_env ''http://ex.test/'' =
     (''https://www.ex.test/'',
      \<lparr>OriginalURL = ''http://ex.test/'', FallbackURL = ''https://www.ex.test/'',
       Success_f = True, Error_f = ''HTTP 503: 503 Service Unavailable''\<rparr>)"
  by (simp add: FindAccessibleURL_def GenerateFallbackURLs_def CheckURLAccessibility_def
      probe_env_def HasPrefix_def Itoa_def Let_def)

text \<open>
  C8. The prober probes the original URL first; on failure it goes through the
  candidates in order (the host with \<open>www.\<close> added or removed, then for the
  scheme \<open>http\<close> the \<open>https\<close> variants of both host forms) and returns the first
  reachable one with \<open>Success\<close> set; when none is reachable it returns the
  original URL with \<open>Success\<close> false. A URL that does not parse has no candidates.
\<close>

theorem FindAccessibleURL_first:
  "FindAccessibleURL env u =
     (case find (reachable env) (u # GenerateFallbackURLs env u) of
        Some c \<Rightarrow>
          (c, \<lparr>OriginalURL = u, FallbackURL = c, Success_f = True,
               Error_f = (case CheckURLAccessibility env u of None \<Rightarrow> [] | Some e \<Rightarrow> e)\<rparr>)
      | None \<Rightarrow>
          (u, \<lparr>OriginalURL = u, FallbackURL = u, Success_f = False,
               Error_f = (case CheckURLAccessibility env u of None \<Rightarrow> [] | Some e \<Rightarrow> e)\<rparr>)) \<and>
   GenerateFallbackURLs env u =
     (case Parse env u of None \<Rightarrow> [] | Some p \<Rightarrow> spec_fallbacks env p)"
proof -
  have "GenerateFallbackURLs env u =
     (case Parse env u of None \<Rightarrow> [] | Some p \<Rightarrow> spec_fallbacks env p)"
  proof (cases "Parse env u")
    case None
    then show ?thesis by (simp add: GenerateFallbackURLs_def)
  next
    case (Some p)
    then show ?thesis by (simp add: GenerateFallbackURLs_spec)
  qed
  moreover have "FindAccessibleURL env u =
     (case find (reachable env) (u # GenerateFallbackURLs env u) of
        Some c \<Rightarrow>
          (c, \<lparr>OriginalURL = u, FallbackURL = c, Success_f = True,
               Error_f = (case CheckURLAccessibility env u of None \<Rightarrow> [] | Some e \<Rightarrow> e)\<rparr>)
      | None \<Rightarrow>
          (u, \<lparr>OriginalURL = u, FallbackURL = u, Success_f = False,
               Error_f = (case CheckURLAccessibility env u of None \<Rightarrow> [] | Some e \<Rightarrow> e)\<rparr>))"
    by (auto simp: FindAccessibleURL_def fallback_loop_find reachable_def Let_def
        split: option.splits)
  ultimately show ?thesis by simp
qed

theorem FindAccessibleURL_first_witness:
  "find (reachable probe_env)
       (''http://ex.test/'' # GenerateFallbackURLs probe_env ''http://ex.test/'')
     = Some ''https://www.ex.test/'' \<and>
   fst (FindAccessibleURL probe_env ''http://ex.test/'') = ''https://www.ex.test/''"
proof -
  have f: "find (reachable probe_env)
       (''http://ex.test/'' # GenerateFallbackURLs probe_env ''http://ex.test/'')
     = Some ''https://www.ex.test/''"
    by (simp add: GenerateFallbackURLs_def probe_env_def HasPrefix_def Let_def
        reachable_def CheckURLAccessibility_def)
  have "FindAccessibleURL probe_env ''http://ex.test/'' =
     (case find (reachable probe_env)
         (''http://ex.test/'' # GenerateFallbackURLs probe_env ''http://ex.test/'') of
        Some c \<Rightarrow>
          (c, \<lparr>OriginalURL = ''http://ex.test/'', FallbackURL = c, Success_f = True,
               Error_f = (case CheckURLAccessibility probe_env ''http://ex.test/'' of
                            None \<Rightarrow> [] | Some e \<Rightarrow> e)\<rparr>)
      | None \<Rightarrow>
          (''http://ex.test/'',
           \<lparr>OriginalURL = ''http://ex.test/'', FallbackURL = ''http://ex.test/'',
            Success_f = False,
            Error_f = (case CheckURLAccessibility probe_env ''http://ex.test/'' of
                         None \<Rightarrow> [] | Some e \<Rightarrow> e)\<rparr>))"
    using FindAccessibleURL_first [of probe_env "''http://ex.test/''"] by (rule conjunct1)
  then have "fst (FindAccessibleURL probe_env ''http://ex.test/'') = ''https://www.ex.test/''"
    unfolding f by simp
  with f show ?thesis by blast
qed

section \<open>Properties of the orchestrator\<close>

lemma removeDuplicateURLs_loop_inv:
  "distinct unique \<Longrightarrow> (\<forall>u. seen u \<longleftrightarrow> u \<in> set unique) \<Longrightarrow>
   distinct (removeDuplicateURLs_loop seen unique urls) \<and>
   set (removeDuplicateURLs_loop seen unique urls) = set unique \<union> set urls"
proof (induction urls arbitrary: seen unique)
  case Nil
  then show ?case by simp
next
  case (Cons url urls)
  show ?case
  proof (cases "seen url")
    case True
    then have "url \<in> set unique" using Cons.prems by simp
    then have "set unique \<union> set (url # urls) = set unique \<union> set urls" by auto
    then show ?thesis
      using True Cons.prems Cons.IH [of unique seen] by simp
  next
    case False
    then have new: "url \<notin> set unique" using Cons.prems by simp
    define rest where "rest = removeDuplicateURLs_loop (seen(url := True)) (unique @ [url]) urls"
    have d: "distinct (unique @ [url])" using Cons.prems new by simp
    have m: "\<forall>u. (seen(url := True)) u \<longleftrightarrow> u \<in> set (unique @ [url])"
      using Cons.prems by simp
    have ih: "distinct rest \<and> set rest = set (unique @ [url]) \<union> set urls"
      unfolding rest_def by (rule Cons.IH [OF d m])
    have step: "removeDuplicateURLs_loop seen unique (url # urls) = rest"
      using False by (simp add: rest_def)
    show ?thesis unfolding step using ih by auto
  qed
qed

lemma removeDuplicateURLs_distinct: "distinct (removeDuplicateURLs urls)"
  using removeDuplicateURLs_loop_inv [of "[]" "\<lambda>url. False" urls]
  by (simp add: removeDuplicateURLs_def)

lemma removeDuplicateURLs_set: "set (removeDuplicateURLs urls) = set urls"
  using removeDuplicateURLs_loop_inv [of "[]" "\<lambda>url. False" urls]
  by (simp add: removeDuplicateURLs_def)

lemma sitemaps_distinct:
  assumes "CrawlWithSitemapsAndFallback env t j r = (evs, Inr urls)"
  shows "distinct urls"
proof -
  obtain de sitemapURLs where d: "DiscoverSitemapsWithFallback env t r = (de, sitemapURLs)"
    by (cases "DiscoverSitemapsWithFallback env t r")
  obtain pe allURLs where p: "parse_sitemaps env j de [] sitemapURLs = (pe, allURLs)"
    by (cases "parse_sitemaps env j de [] sitemapURLs")
  show ?thesis
    using assms d p removeDuplicateURLs_distinct [of allURLs]
    by (cases "sitemapURLs = []") (auto simp: CrawlWithSitemapsAndFallback_def Let_def)
qed

lemma sitemap_block_distinct:
  assumes "sitemap_block env t c j a f = (s, urls)"
  shows "distinct urls"
proof (cases "enableSitemap c")
  case False
  with assms show ?thesis by (simp add: sitemap_block_def)
next
  case True
  obtain re robots where r:
    "(if \<not> Success_f f then ParseRobotsTxt env 1 t else ([], [])) = (re, robots)"
    by (cases "if \<not> Success_f f then ParseRobotsTxt env 1 t else ([], [])")
  obtain se res where c: "CrawlWithSitemapsAndFallback env a j robots = (se, res)"
    by (cases "CrawlWithSitemapsAndFallback env a j robots")
  show ?thesis
  proof (cases res)
    case (Inl err)
    with assms True r c show ?thesis by (simp add: sitemap_block_def Let_def)
  next
    case (Inr us)
    with c have "distinct us" using sitemaps_distinct by simp
    with assms True r c Inr show ?thesis by (auto simp: sitemap_block_def Let_def)
  qed
qed

lemma html_block_distinct:
  assumes "distinct urls" and "html_block env c j a urls = (s, urls')"
  shows "distinct urls'"
proof (cases "enableHTML c \<and> shouldFallbackToHTML urls c")
  case False
  with assms show ?thesis by (auto simp: html_block_def Let_def)
next
  case True
  obtain he res where h: "CrawlWithHTML env a c j = (he, res)"
    by (cases "CrawlWithHTML env a c j")
  show ?thesis
    using assms True h removeDuplicateURLs_distinct
    by (cases res) (auto simp: html_block_def Let_def)
qed

lemma cap_block_distinct:
  "distinct urls \<Longrightarrow> cap_block c j urls = (s, urls') \<Longrightarrow> distinct urls'"
  by (auto simp: cap_block_def split: if_splits)

lemma crawl_result:
  assumes "snd (CrawlWebsiteWithTiers env t c j) = Inr res"
  shows "\<exists>s0 a f s2 u2 s3 u3 s4.
     reach_block env t j = (s0, a, f, False) \<and>
     sitemap_block env t c j a f = (s2, u2) \<and>
     html_block env c j a u2 = (s3, u3) \<and>
     cap_block c j u3 = (s4, URLs res)"
proof -
  obtain s0 a f failed where r: "reach_block env t j = (s0, a, f, failed)"
    by (cases "reach_block env t j") auto
  obtain s2 u2 where s: "sitemap_block env t c j a f = (s2, u2)"
    by (cases "sitemap_block env t c j a f")
  obtain s3 u3 where h: "html_block env c j a u2 = (s3, u3)"
    by (cases "html_block env c j a u2")
  obtain s4 u4 where k: "cap_block c j u3 = (s4, u4)"
    by (cases "cap_block c j u3")
  have nf: "\<not> failed"
    using assms r by (auto simp: CrawlWebsiteWithTiers_def)
  then have "URLs res = u4"
    using assms r s h k by (auto simp: CrawlWebsiteWithTiers_def Let_def)
  with r s h k nf show ?thesis by auto
qed

lemma crawl_distinct:
  assumes "snd (CrawlWebsiteWithTiers env t c j) = Inr res"
  shows "distinct (URLs res)"
proof -
  from crawl_result [OF assms] obtain a f s2 u2 s3 u3 s4 where
    "sitemap_block env t c j a f = (s2, u2)" "html_block env c j a u2 = (s3, u3)"
    "cap_block c j u3 = (s4, URLs res)" by blast
  then show ?thesis
    using sitemap_block_distinct html_block_distinct cap_block_distinct by blast
qed

lemma crawl_capped:
  assumes "snd (CrawlWebsiteWithTiers env t c j) = Inr res" and "MaxURLs c > 0"
  shows "int (length (URLs res)) \<le> MaxURLs c"
proof -
  from crawl_result [OF assms(1)] obtain u3 s4 where
    "cap_block c j u3 = (s4, URLs res)" by blast
  then have "URLs res =
      (if MaxURLs c > 0 \<and> int (length u3) > MaxURLs c then take (nat (MaxURLs c)) u3 else u3)"
    by (auto simp: cap_block_def split: if_splits)
  then show ?thesis using assms(2) by (simp split: if_splits)
qed

lemma reach_block_steps:
  "reach_block env t j = (s0, a, f, failed) \<Longrightarrow> Invoke x \<notin> set s0 \<and> list_all (\<lambda>s. \<not> registry_step s) s0"
  by (auto simp: reach_block_def Let_def list_all_iff split: prod.splits if_splits)

lemma sitemap_block_steps:
  "sitemap_block env t c j a f = (s2, u2) \<Longrightarrow>
     (Invoke x \<in> set s2 \<longrightarrow> x = ''sitemap'') \<and> list_all (\<lambda>s. \<not> registry_step s) s2"
  by (auto simp: sitemap_block_def Let_def list_all_iff split: prod.splits if_splits sum.splits)

lemma html_block_steps:
  "html_block env c j a u2 = (s3, u3) \<Longrightarrow>
     (Invoke x \<in> set s3 \<longleftrightarrow> x = ''html'' \<and> enableHTML c \<and> length u2 < 10) \<and>
     list_all (\<lambda>s. \<not> registry_step s) s3"
  by (auto simp: html_block_def Let_def list_all_iff shouldFallbackToHTML_def
      split: prod.splits if_splits sum.splits)

lemma cap_block_steps:
  "cap_block c j u3 = (s4, u4) \<Longrightarrow> Invoke x \<notin> set s4 \<and> list_all (\<lambda>s. \<not> registry_step s) s4"
  by (auto simp: cap_block_def split: if_splits)

lemma crawl_unfold:
  assumes "reach_block env t j = (s0, a, f, failed)"
    "sitemap_block env t c j a f = (s2, u2)"
    "html_block env c j a u2 = (s3, u3)"
    "cap_block c j u3 = (s4, u4)"
  shows "CrawlWebsiteWithTiers env t c j =
       (if failed then (s0, Inl (''URL and all fallbacks are inaccessible: '' @ Error_f f))
        else (s0 @ ((if FallbackURL f \<noteq> OriginalURL f
                   then [PublishCall (event ''progress'' j [])] else [])
                  @ [PublishCall (event ''progress'' j [])]) @ s2 @ s3 @ s4
                @ [PublishCall ((event ''completed'' j [])\<lparr>Total_e := int (length u4)\<rparr>)],
              Inr \<lparr>TargetURL = a, TotalURLs = int (length u4),
                   Settings = \<lparr>Workers_s = Workers c, Delay_s = Delay c, Depth_s = Depth c\<rparr>,
                   URLs = u4\<rparr>))"
  using assms by (simp add: CrawlWebsiteWithTiers_def Let_def)

















subsection \<open>Runs on the concrete site\<close>

lemma site_env_run:
  "CrawlWebsiteWithTiers site_env ''https://www.ex.test/'' (set_defaults plain_request) ''j1'' =
    ([PublishCall (event ''progress'' ''j1'' []),
      PublishCall (event ''tier_switch'' ''j1'' ''sitemap''),
      Invoke ''sitemap'',
      PublishCall ((event ''progress'' ''j1'' ''sitemap'')\<lparr>Total_e := 1\<rparr>),
      PublishCall (event ''tier_switch'' ''j1'' ''html''),
      Invoke ''html'',
      PublishCall ((event ''progress'' ''j1'' ''html'')\<lparr>Total_e := 1\<rparr>),
      PublishCall ((event ''completed'' ''j1'' [])\<lparr>Total_e := 1\<rparr>)],
     Inr \<lparr>TargetURL = ''https://www.ex.test/'', TotalURLs = 1,
          Settings = \<lparr>Workers_s = 10, Delay_s = ''200ms'', Depth_s = 1\<rparr>,
          URLs = [''https://other.test/a'']\<rparr>)"
  by (simp add: CrawlWebsiteWithTiers_def reach_block_def sitemap_block_def html_block_def
      cap_block_def CrawlWithSitemapsAndFallback_def CrawlWithHTML_def crawlWebsiteWithEvents_def
      FindAccessibleURL_def CheckURLAccessibility_def site_env_def site_net_def
      plain_request_def set_defaults_def enableSitemap_def enableHTML_def
      shouldFallbackToHTML_def removeDuplicateURLs_def allowedDomains_of_def HasPrefix_def
      Let_def)

lemma site_env_run_neg:
  "snd (CrawlWebsiteWithTiers site_env ''https://www.ex.test/''
         (set_defaults (plain_request\<lparr>MaxURLs := - 1\<rparr>)) ''j1'') =
     Inr \<lparr>TargetURL = ''https://www.ex.test/'', TotalURLs = 1,
          Settings = \<lparr>Workers_s = 10, Delay_s = ''200ms'', Depth_s = 1\<rparr>,
          URLs = [''https://other.test/a'']\<rparr>"
  by (simp add: CrawlWebsiteWithTiers_def reach_block_def sitemap_block_def html_block_def
      cap_block_def CrawlWithSitemapsAndFallback_def CrawlWithHTML_def crawlWebsiteWithEvents_def
      FindAccessibleURL_def CheckURLAccessibility_def site_env_def site_net_def
      plain_request_def set_defaults_def enableSitemap_def enableHTML_def
      shouldFallbackToHTML_def removeDuplicateURLs_def allowedDomains_of_def HasPrefix_def
      Let_def)

subsection \<open>The cap on the number of URLs\<close>

text \<open>
  C4, as stated, fails: a request with \<open>max_urls = -1\<close> is accepted, keeps that
  value through the defaults and the clamp, and its crawl returns one URL.
\<close>

theorem max_urls_counterexample:
  "HandleCrawl Map.empty ''j1'' 7 (Some (plain_request\<lparr>MaxURLs := - 1\<rparr>)) =
     Inr (site_job\<lparr>Request := Some (set_defaults (plain_request\<lparr>MaxURLs := - 1\<rparr>))\<rparr>) \<and>
   MaxURLs (set_defaults (plain_request\<lparr>MaxURLs := - 1\<rparr>)) = - 1 \<and>
   URLs (projr (snd (CrawlWebsiteWithTiers site_env ''https://www.ex.test/''
            (set_defaults (plain_request\<lparr>MaxURLs := - 1\<rparr>)) ''j1''))) = [''https://other.test/a''] \<and>
   \<not> int (length [''https://other.test/a'']) \<le> MaxURLs (set_defaults (plain_request\<lparr>MaxURLs := - 1\<rparr>))"
  by (simp add: site_env_run_neg)
    (simp add: HandleCrawl_def site_job_def plain_request_def set_defaults_def Let_def)

lemma crawl_cap:
  assumes "snd (CrawlWebsiteWithTiers env t c j) = Inr res"
  shows "URLs res =
     (if 0 < MaxURLs c \<and> MaxURLs c < int (length (merged_URLs env t c j))
      then take (nat (MaxURLs c)) (merged_URLs env t c j) else merged_URLs env t c j)"
proof -
  from crawl_result [OF assms] obtain s0 a f s2 u2 s3 u3 s4 where
    r: "reach_block env t j = (s0, a, f, False)" and
    s: "sitemap_block env t c j a f = (s2, u2)" and
    h: "html_block env c j a u2 = (s3, u3)" and
    k: "cap_block c j u3 = (s4, URLs res)" by blast
  have "merged_URLs env t c j = u3" using r s h by (simp add: merged_URLs_def)
  with k show ?thesis by (auto simp: cap_block_def split: if_splits)
qed

text \<open>
  C4, amended. The defaults and the clamp turn \<open>max_urls\<close> 0 into 1000 and a
  value above 5000 into 5000, and leave every other value, a negative one included, as it
  is; so \<open>max_urls\<close> is at most 5000, and the job of an accepted request carries
  the request so treated. The URLs of a crawl's result are the URLs after tier 2, cut to
  the first \<open>max_urls\<close> of them exactly when \<open>max_urls\<close> is positive and
  smaller than their number: with a positive \<open>max_urls\<close> the result has at most
  \<open>max_urls\<close> URLs, and with a negative one nothing is cut and the result has more
  than \<open>max_urls\<close> URLs.
\<close>

theorem max_urls_rule:
  "MaxURLs (set_defaults req) =
     (if MaxURLs req = 0 then 1000 else if MaxURLs req > 5000 then 5000 else MaxURLs req) \<and>
   MaxURLs (set_defaults req) \<le> 5000 \<and>
   (HandleCrawl A fresh now (Some req) = Inr job \<longrightarrow> Request job = Some (set_defaults req)) \<and>
   (snd (CrawlWebsiteWithTiers env t c j) = Inr res \<longrightarrow>
      URLs res =
        (if 0 < MaxURLs c \<and> MaxURLs c < int (length (merged_URLs env t c j))
         then take (nat (MaxURLs c)) (merged_URLs env t c j) else merged_URLs env t c j) \<and>
      (0 < MaxURLs c \<longrightarrow> int (length (URLs res)) \<le> MaxURLs c) \<and>
      (MaxURLs c < 0 \<longrightarrow>
         URLs res = merged_URLs env t c j \<and> MaxURLs c < int (length (URLs res))))"
proof -
  have "Request job = Some (set_defaults req)"
    if "HandleCrawl A fresh now (Some req) = Inr job"
    using that by (auto simp: HandleCrawl_def Let_def split: if_splits)
  moreover have "MaxURLs (set_defaults req) =
     (if MaxURLs req = 0 then 1000 else if MaxURLs req > 5000 then 5000 else MaxURLs req)"
    by (simp add: set_defaults_def Let_def)
  moreover have "MaxURLs (set_defaults req) \<le> 5000"
    by (simp add: set_defaults_def Let_def)
  moreover have "MaxURLs c < 0 \<Longrightarrow> MaxURLs c < int (length (URLs res))"
    by simp
  ultimately show ?thesis
    using crawl_cap [of env t c j res] crawl_capped [of env t c j res]
    by simp
qed

lemma three_env_run:
  "snd (CrawlWebsiteWithTiers three_env ''https://www.ex.test/''
         (set_defaults (plain_request\<lparr>MaxURLs := 2\<rparr>)) ''j1'') = Inr three_result"
  by (simp add: CrawlWebsiteWithTiers_def reach_block_def sitemap_block_def html_block_def
      cap_block_def CrawlWithSitemapsAndFallback_def CrawlWithHTML_def crawlWebsiteWithEvents_def
      FindAccessibleURL_def CheckURLAccessibility_def three_env_def site_env_def site_net_def
      plain_request_def set_defaults_def enableSitemap_def enableHTML_def
      shouldFallbackToHTML_def removeDuplicateURLs_def allowedDomains_of_def HasPrefix_def
      three_result_def Let_def)

lemma three_env_merged:
  "merged_URLs three_env ''https://www.ex.test/''
         (set_defaults (plain_request\<lparr>MaxURLs := 2\<rparr>)) ''j1'' =
     [''https://www.ex.test/a'', ''https://www.ex.test/b'', ''https://www.ex.test/c'']"
  by (simp add: merged_URLs_def reach_block_def sitemap_block_def html_block_def
      CrawlWithSitemapsAndFallback_def CrawlWithHTML_def crawlWebsiteWithEvents_def
      FindAccessibleURL_def CheckURLAccessibility_def three_env_def site_env_def site_net_def
      plain_request_def set_defaults_def enableSitemap_def enableHTML_def
      shouldFallbackToHTML_def removeDuplicateURLs_def allowedDomains_of_def HasPrefix_def
      Let_def)

theorem max_urls_rule_witness:
  "MaxURLs (set_defaults plain_request) = 1000 \<and>
   MaxURLs (set_defaults (plain_request\<lparr>MaxURLs := 2\<rparr>)) = 2 \<and>
   merged_URLs three_env ''https://www.ex.test/''
         (set_defaults (plain_request\<lparr>MaxURLs := 2\<rparr>)) ''j1'' =
     [''https://www.ex.test/a'', ''https://www.ex.test/b'', ''https://www.ex.test/c''] \<and>
   URLs three_result = [''https://www.ex.test/a'', ''https://www.ex.test/b''] \<and>
   int (length (URLs three_result)) \<le> MaxURLs (set_defaults (plain_request\<lparr>MaxURLs := 2\<rparr>)) \<and>
   MaxURLs (set_defaults (plain_request\<lparr>MaxURLs := - 1\<rparr>)) = - 1 \<and>
   merged_URLs site_env ''https://www.ex.test/''
         (set_defaults (plain_request\<lparr>MaxURLs := - 1\<rparr>)) ''j1'' = [''https://other.test/a'']"
proof -
  let ?u = "''https://www.ex.test/''"
  let ?c = "set_defaults (plain_request\<lparr>MaxURLs := 2\<rparr>)"
  let ?n = "set_defaults (plain_request\<lparr>MaxURLs := - 1\<rparr>)"
  let ?r = "\<lparr>TargetURL = ''https://www.ex.test/'', TotalURLs = 1,
          Settings = \<lparr>Workers_s = 10, Delay_s = ''200ms'', Depth_s = 1\<rparr>,
          URLs = [''https://other.test/a'']\<rparr>"
  from max_urls_rule [where req = plain_request, THEN conjunct1]
  have a: "MaxURLs (set_defaults plain_request) = 1000"
    by (simp add: plain_request_def)
  note M = max_urls_rule [where req = "plain_request\<lparr>MaxURLs := 2\<rparr>" and env = three_env
      and t = ?u and c = ?c and j = "''j1''" and res = three_result]
  from M [THEN conjunct1] have b: "MaxURLs ?c = 2" by simp
  from M [THEN conjunct2, THEN conjunct2, THEN conjunct2, THEN mp, OF three_env_run]
  have c: "URLs three_result = [''https://www.ex.test/a'', ''https://www.ex.test/b'']"
    "int (length (URLs three_result)) \<le> MaxURLs ?c"
    unfolding three_env_merged b by simp_all
  note N = max_urls_rule [where req = "plain_request\<lparr>MaxURLs := - 1\<rparr>" and env = site_env
      and t = ?u and c = ?n and j = "''j1''" and res = ?r]
  from N [THEN conjunct1] have d: "MaxURLs ?n = - 1" by simp
  from N [THEN conjunct2, THEN conjunct2, THEN conjunct2, THEN mp, OF site_env_run_neg] d
  have e: "merged_URLs site_env ?u ?n ''j1'' = [''https://other.test/a'']"
    by simp
  from a b c d e three_env_merged show ?thesis by simp
qed

subsection \<open>Uniqueness and host scope of the result\<close>

lemma allowedDomains_of_toggle: "allowedDomains_of b = [b, toggle_www b]"
  by (simp add: allowedDomains_of_def toggle_www_def)

lemma walk_scoped:
  assumes "\<forall>u\<in>set (urlList w). P u"
  shows "\<forall>u\<in>set (urlList (foldl (on_callback al m j) w cbs)).
           P u \<or> (\<exists>l d. Found l d \<in> set cbs \<and> u = clean_link l \<and> link_Host l \<in> set al)"
  using assms
proof (induction cbs arbitrary: w P)
  case Nil
  then show ?case by simp
next
  case (Cons cb cbs)
  let ?Q = "\<lambda>u. P u \<or> (\<exists>l d. cb = Found l d \<and> u = clean_link l \<and> link_Host l \<in> set al)"
  have "\<forall>u\<in>set (urlList (on_callback al m j w cb)). ?Q u"
    using Cons.prems by (cases cb) (auto simp: Let_def)
  from Cons.IH [of "on_callback al m j w cb" ?Q, OF this]
  show ?case by (simp) blast
qed

lemma walk_distinct:
  assumes "distinct (urlList w)" "\<forall>u. foundURLs w u \<longleftrightarrow> u \<in> set (urlList w)"
  shows "distinct (urlList (foldl (on_callback al m j) w cbs))"
  using assms
proof (induction cbs arbitrary: w)
  case Nil
  then show ?case by simp
next
  case (Cons cb cbs)
  have "distinct (urlList (on_callback al m j w cb)) \<and>
     (\<forall>u. foundURLs (on_callback al m j w cb) u \<longleftrightarrow> u \<in> set (urlList (on_callback al m j w cb)))"
    using Cons.prems by (cases cb) (auto simp: Let_def)
  with Cons.IH [of "on_callback al m j w cb"] show ?case by simp
qed

lemma walker_result:
  assumes "crawlWebsiteWithEvents env t d wk dl m j = (evs, Inr r)"
  shows "\<exists>p. Parse (net env) (TargetURL r) = Some p \<and>
     (\<forall>u\<in>set (URLs r). \<exists>l dp. Found l dp \<in> set (callbacks env (TargetURL r)) \<and>
         u = clean_link l \<and>
         (link_Host l = Host p \<or> link_Host l = toggle_www (Host p)))"
proof -
  obtain a f where fa: "FindAccessibleURL (net env) t = (a, f)"
    by (cases "FindAccessibleURL (net env) t")
  from assms fa obtain p where p: "Parse (net env) a = Some p"
    by (auto simp: crawlWebsiteWithEvents_def Let_def split: if_splits option.splits)
  let ?w0 = "\<lparr>foundURLs = (\<lambda>url. False), urlList = [], stopped = False, emitted = []\<rparr>"
  let ?w = "foldl (on_callback (allowedDomains_of (Host p)) m j) ?w0 (callbacks env a)"
  from assms fa p have r: "TargetURL r = a" "URLs r = urlList ?w"
    by (auto simp: crawlWebsiteWithEvents_def Let_def split: if_splits option.splits)
  have "\<forall>u\<in>set (urlList ?w). False \<or>
      (\<exists>l d. Found l d \<in> set (callbacks env a) \<and> u = clean_link l \<and>
         link_Host l \<in> set (allowedDomains_of (Host p)))"
    by (rule walk_scoped) simp
  then show ?thesis using r p by (auto simp: allowedDomains_of_toggle)
qed

text \<open>
  C3, as stated, fails in its second half: a URL that a sitemap lists is taken into the
  result whatever its host.
\<close>

theorem same_site_counterexample:
  "URLs (projr (snd (CrawlWebsiteWithTiers site_env ''https://www.ex.test/''
            (set_defaults plain_request) ''j1''))) = [''https://other.test/a''] \<and>
   \<not> spec_same_site (net site_env) ''https://www.ex.test/'' ''https://other.test/a''"
  by (simp add: site_env_run)
    (simp add: spec_same_site_def site_env_def site_net_def toggle_www_def HasPrefix_def)

text \<open>
  C3, amended. The URLs of a crawl result are pairwise different. The host scope holds
  for what the HTML walker collects: each of its URLs is the cleaned form of a link
  whose host is the host of the walked URL, or that host with \<open>www.\<close> added or
  removed. The URLs that come from sitemaps are not filtered by host.
\<close>

theorem urls_unique_walker_scoped:
  "(snd (CrawlWebsiteWithTiers env t c j) = Inr res \<longrightarrow> distinct (URLs res)) \<and>
   (crawlWebsiteWithEvents env t d wk dl m j = (evs, Inr r) \<longrightarrow>
      (\<exists>p. Parse (net env) (TargetURL r) = Some p \<and>
         (\<forall>u\<in>set (URLs r). \<exists>l dp. Found l dp \<in> set (callbacks env (TargetURL r)) \<and>
            u = clean_link l \<and>
            (link_Host l = Host p \<or> link_Host l = toggle_www (Host p)))))"
  using crawl_distinct [of env t c j res] walker_result [of env t d wk dl m j evs r]
  by blast

lemma walk_env_run:
  "crawlWebsiteWithEvents walk_env ''https://www.ex.test/'' 1 10 ''200ms'' 1000 ''j1'' =
     ([(event ''url_discovered'' ''j1'' [])\<lparr>URL_e := ''https://www.ex.test/a'', Total_e := 1\<rparr>,
       (event ''url_discovered'' ''j1'' [])\<lparr>URL_e := ''https://ex.test/c?q=1'', Total_e := 2\<rparr>],
      Inr \<lparr>TargetURL = ''https://www.ex.test/'', TotalURLs = 2,
           Settings = \<lparr>Workers_s = 10, Delay_s = ''200ms'', Depth_s = 1\<rparr>,
           URLs = [''https://www.ex.test/a'', ''https://ex.test/c?q=1'']\<rparr>)"
  by (simp add: crawlWebsiteWithEvents_def FindAccessibleURL_def CheckURLAccessibility_def
      walk_env_def site_env_def site_net_def allowedDomains_of_def HasPrefix_def clean_link_def
      Let_def)

theorem urls_unique_walker_scoped_witness:
  "distinct (URLs site_result) \<and>
   (\<exists>p. Parse (net walk_env) ''https://www.ex.test/'' = Some p \<and>
      (\<forall>u\<in>set [''https://www.ex.test/a'', ''https://ex.test/c?q=1''].
         \<exists>l dp. Found l dp \<in> set (callbacks walk_env ''https://www.ex.test/'') \<and>
            u = clean_link l \<and>
            (link_Host l = Host p \<or> link_Host l = toggle_www (Host p))))"
proof -
  have a: "snd (CrawlWebsiteWithTiers site_env ''https://www.ex.test/''
          (set_defaults plain_request) ''j1'') = Inr site_result"
    by (simp add: site_env_run site_result_def)
  have b: "TargetURL \<lparr>TargetURL = ''https://www.ex.test/'', TotalURLs = 2,
           Settings = \<lparr>Workers_s = 10, Delay_s = ''200ms'', Depth_s = 1\<rparr>,
           URLs = [''https://www.ex.test/a'', ''https://ex.test/c?q=1'']\<rparr> = ''https://www.ex.test/''"
    by simp
  from urls_unique_walker_scoped [of site_env "''https://www.ex.test/''"
        "set_defaults plain_request" "''j1''" site_result] a
  have "distinct (URLs site_result)" by blast
  moreover from urls_unique_walker_scoped [of walk_env "''https://www.ex.test/''" _ "''j1''" _
        1 10 "''200ms''" 1000] walk_env_run
  have "\<exists>p. Parse (net walk_env) ''https://www.ex.test/'' = Some p \<and>
      (\<forall>u\<in>set [''https://www.ex.test/a'', ''https://ex.test/c?q=1''].
         \<exists>l dp. Found l dp \<in> set (callbacks walk_env ''https://www.ex.test/'') \<and>
            u = clean_link l \<and>
            (link_Host l = Host p \<or> link_Host l = toggle_www (Host p)))"
    by fastforce
  ultimately show ?thesis by blast
qed

subsection \<open>The order of publication and registry update\<close>

lemma is_run_flush_nil:
  "is_run bus n [] pending (map Bus pending @ tr) = is_run bus n [] [] tr"
  by (induction pending) simp_all

lemma is_run_flush:
  assumes "\<not> publish_call s"
  shows "is_run bus n (s # prog) pending (map Bus pending @ tr) = is_run bus n (s # prog) [] tr"
proof (induction pending)
  case Nil
  show ?case by simp
next
  case (Cons p ps)
  have "is_run bus n (s # prog) (p # ps) (Bus p # map Bus ps @ tr)
      = is_run bus n (s # prog) ps (map Bus ps @ tr)"
    using assms by (cases s) simp_all
  then show ?case using Cons by simp
qed

lemma is_run_eager: "is_run bus n prog pending (map Bus pending @ eager bus n prog)"
proof (induction prog arbitrary: n pending)
  case Nil
  show ?case using is_run_flush_nil [of bus n pending "[]"] by simp
next
  case (Cons s prog)
  show ?case
  proof (cases "publish_call s")
    case True
    then obtain e where s: "s = PublishCall e" by (cases s) simp_all
    show ?thesis
      using Cons.IH [of "Suc n"
          "pending @ (case PublishCrawlEvent bus n e of Some m \<Rightarrow> [m] | None \<Rightarrow> [])"]
      by (simp add: s split: option.splits)
  next
    case False
    have "eager bus n (s # prog) = Did s # eager bus n prog" using False by (cases s) simp_all
    moreover have "is_run bus n (s # prog) [] (Did s # eager bus n prog)"
      using False Cons.IH [of n "[]"] by (cases s) simp_all
    ultimately show ?thesis using is_run_flush [OF False] by simp
  qed
qed

lemma is_run_lazy:
  "is_run bus n prog pending
     (map Did (filter (\<lambda>s. \<not> publish_call s) prog) @ map Bus (pending @ spawned bus n prog))"
proof (induction prog arbitrary: n pending)
  case Nil
  show ?case using is_run_flush_nil [of bus n pending "[]"] by simp
next
  case (Cons s prog)
  show ?case
  proof (cases "publish_call s")
    case True
    then obtain e where s: "s = PublishCall e" by (cases s) simp_all
    show ?thesis
      using Cons.IH [of "Suc n"
          "pending @ (case PublishCrawlEvent bus n e of Some m \<Rightarrow> [m] | None \<Rightarrow> [])"]
      by (simp add: s)
  next
    case False
    then show ?thesis using Cons.IH [of n pending] by (cases s) simp_all
  qed
qed

lemma spec_order_written: "spec_published_after_update True tr"
proof (induction tr)
  case Nil
  show ?case by simp
next
  case (Cons x tr)
  show ?case
  proof (cases x)
    case (Did s)
    with Cons show ?thesis by (cases s) simp_all
  qed (use Cons in simp_all)
qed

lemma spec_order_lazy:
  "\<exists>job. StoreUpdate job \<in> set ds \<Longrightarrow>
     spec_published_after_update False (map Did ds @ tr)"
proof (induction ds)
  case Nil
  then show ?case by simp
next
  case (Cons s ds)
  then show ?case by (cases s) (auto simp: spec_order_written)
qed

lemma reach_block_failed:
  assumes "reach_block env t j = (s0, a, f, True)"
  shows "\<exists>cs. s0 = cs @ [PublishCall ((event ''error'' j [])\<lparr>Error_e := Error_f f\<rparr>)] \<and>
          list_all (\<lambda>s. \<not> registry_step s) cs"
proof -
  obtain a0 f0 where fa: "FindAccessibleURL (net env) t = (a0, f0)"
    by (cases "FindAccessibleURL (net env) t")
  obtain re robots where rb: "ParseRobotsTxt env 0 t = (re, robots)"
    by (cases "ParseRobotsTxt env 0 t")
  have ns: "\<not> Success_f f0" and nr: "\<not> length robots > 0"
    using assms fa rb by (auto simp: reach_block_def Let_def split: if_splits)
  then have "s0 = (PublishCall (event ''progress'' j ''sitemap'') # map PublishCall re)
      @ [PublishCall ((event ''error'' j [])\<lparr>Error_e := Error_f f0\<rparr>)]" and "f = f0"
    using assms fa rb by (auto simp: reach_block_def Let_def)
  moreover have "list_all (\<lambda>s. \<not> registry_step s)
      (PublishCall (event ''progress'' j ''sitemap'') # map PublishCall re)"
    by (simp add: list_all_iff)
  ultimately show ?thesis by blast
qed

lemma crawl_last:
  "fst (CrawlWebsiteWithTiers env t c j) \<noteq> [] \<and>
   list_all (\<lambda>s. \<not> registry_step s) (fst (CrawlWebsiteWithTiers env t c j)) \<and>
   (case snd (CrawlWebsiteWithTiers env t c j) of
      Inr result \<Rightarrow>
        last (fst (CrawlWebsiteWithTiers env t c j)) =
          PublishCall ((event ''completed'' j [])\<lparr>Total_e := int (length (URLs result))\<rparr>)
    | Inl err \<Rightarrow>
        \<exists>m. err = ''URL and all fallbacks are inaccessible: '' @ m \<and>
          last (fst (CrawlWebsiteWithTiers env t c j)) =
            PublishCall ((event ''error'' j [])\<lparr>Error_e := m\<rparr>))"
proof -
  obtain s0 a f failed where r: "reach_block env t j = (s0, a, f, failed)"
    by (cases "reach_block env t j") auto
  obtain s2 u2 where s: "sitemap_block env t c j a f = (s2, u2)"
    by (cases "sitemap_block env t c j a f")
  obtain s3 u3 where h: "html_block env c j a u2 = (s3, u3)"
    by (cases "html_block env c j a u2")
  obtain s4 u4 where k: "cap_block c j u3 = (s4, u4)"
    by (cases "cap_block c j u3")
  note w = crawl_unfold [OF r s h k]
  show ?thesis
  proof (cases failed)
    case True
    with r have "reach_block env t j = (s0, a, f, True)" by simp
    from reach_block_failed [OF this] obtain cs where
      "s0 = cs @ [PublishCall ((event ''error'' j [])\<lparr>Error_e := Error_f f\<rparr>)]"
      "list_all (\<lambda>s. \<not> registry_step s) cs" by blast
    then show ?thesis unfolding w using True by simp
  next
    case False
    have "list_all (\<lambda>s. \<not> registry_step s) (s0 @ s2 @ s3 @ s4)"
      using reach_block_steps [OF r] sitemap_block_steps [OF s] html_block_steps [OF h]
        cap_block_steps [OF k] by simp
    then show ?thesis unfolding w using False by simp
  qed
qed

lemma crawl_job_steps:
  "fst (crawl_job env now req job) =
     PublishCall (event ''progress'' (ID job) []) #
     fst (CrawlWebsiteWithTiers env (URL_crawl req) req (ID job)) @
     JobsLock #
     (case snd (CrawlWebsiteWithTiers env (URL_crawl req) req (ID job)) of
        Inl err \<Rightarrow> [SetStatus ''failed'', SetError err]
      | Inr result \<Rightarrow>
          [SetStatus ''completed'', SetResult result,
           PublishCall ((event ''completed'' (ID job) [])
                         \<lparr>Total_e := int (length (URLs result))\<rparr>)]) @
     [SetUpdatedAt now, StoreUpdate (snd (crawl_job env now req job)), JobsUnlock]"
  "snd (crawl_job env now req job) =
     (case snd (CrawlWebsiteWithTiers env (URL_crawl req) req (ID job)) of
        Inl err \<Rightarrow> job\<lparr>Status := ''failed'', Error_j := err, UpdatedAt := now\<rparr>
      | Inr result \<Rightarrow>
          job\<lparr>Status := ''completed'', Result := Some result, UpdatedAt := now\<rparr>)"
  by (simp_all add: crawl_job_def split_beta Let_def split: sum.splits)

lemma spec_order_eager_cs:
  assumes "\<And>k e. PublishCrawlEvent bus k e = Some e"
  shows "list_all (\<lambda>s. \<not> registry_step s) cs \<Longrightarrow> cs \<noteq> [] \<Longrightarrow>
     last cs = PublishCall e \<Longrightarrow> terminal_event e \<Longrightarrow>
     \<not> spec_published_after_update False (eager bus n (cs @ rest))"
proof (induction cs arbitrary: n)
  case Nil
  then show ?case by simp
next
  case (Cons s cs)
  show ?case
  proof (cases "cs = []")
    case True
    with Cons.prems have "s = PublishCall e" by simp
    with True Cons.prems(4) show ?thesis by (simp add: assms)
  next
    case False
    with Cons.prems have "last cs = PublishCall e" "list_all (\<lambda>s. \<not> registry_step s) cs"
      by simp_all
    from Cons.IH [OF this(2) False this(1) Cons.prems(4)]
    have ih: "\<not> spec_published_after_update False (eager bus k (cs @ rest))" for k .
    from Cons.prems(1) show ?thesis
      using ih by (cases s) (simp_all add: assms)
  qed
qed

lemma eager_run_violates:
  assumes "\<And>k e. PublishCrawlEvent bus k e = Some e"
  shows "\<not> spec_published_after_update False (eager bus 0 (fst (crawl_job env now req job)))"
proof -
  let ?cs = "fst (CrawlWebsiteWithTiers env (URL_crawl req) req (ID job))"
  from crawl_last [of env "URL_crawl req" req "ID job"]
  obtain e where l: "?cs \<noteq> []" "list_all (\<lambda>s. \<not> registry_step s) ?cs"
    "last ?cs = PublishCall e" "terminal_event e"
    by (cases "snd (CrawlWebsiteWithTiers env (URL_crawl req) req (ID job))")
      (auto simp: terminal_event_def event_def)
  from spec_order_eager_cs [OF assms l(2) l(1) l(3) l(4)]
  have "\<not> spec_published_after_update False (eager bus (Suc 0) (?cs @ rest))" for rest .
  then show ?thesis
    unfolding crawl_job_steps(1) by (simp add: assms terminal_event_def event_def)
qed

lemma lazy_run_conforms:
  "is_run bus 0 (fst (crawl_job env now req job)) [] (lazy bus 0 (fst (crawl_job env now req job)))
   \<and> spec_published_after_update False (lazy bus 0 (fst (crawl_job env now req job)))"
proof -
  let ?prog = "fst (crawl_job env now req job)"
  have "StoreUpdate (snd (crawl_job env now req job)) \<in> set ?prog"
    unfolding crawl_job_steps(1) by simp
  then have "\<exists>job. StoreUpdate job \<in> set (filter (\<lambda>s. \<not> publish_call s) ?prog)"
    by (intro exI [of _ "snd (crawl_job env now req job)"]) simp
  from spec_order_lazy [OF this] is_run_lazy [of bus 0 ?prog "[]"]
  show ?thesis by (simp add: lazy_def)
qed

lemma closed_bus_run:
  assumes "\<And>k. RabbitChannel bus k \<noteq> ChanOpen"
  shows "is_run bus n prog [] tr \<longleftrightarrow> tr = map Did (filter (\<lambda>s. \<not> publish_call s) prog)"
proof (induction prog arbitrary: n tr)
  case Nil
  show ?case
  proof (cases tr)
    case Nil
    then show ?thesis by simp
  next
    case (Cons x xs)
    then show ?thesis by (cases x) simp_all
  qed
next
  case (Cons s prog)
  have none: "PublishCrawlEvent bus n e = None" for e
    using assms [of n] by (cases "RabbitChannel bus n") (auto simp: PublishCrawlEvent_def)
  show ?case
  proof (cases "publish_call s")
    case True
    then obtain e where "s = PublishCall e" by (cases s) simp_all
    then show ?thesis using Cons.IH [of "Suc n" tr] by (simp add: none)
  next
    case False
    show ?thesis
    proof (cases tr)
      case Nil
      with False show ?thesis by (cases s) simp_all
    next
      case (Cons x xs)
      show ?thesis
      proof (cases x)
        case (Did s')
        with Cons False Cons.IH [of n xs] show ?thesis by (cases s) auto
      next
        case (Bus e)
        with Cons False show ?thesis by (cases s) simp_all
      next
        case (Lost e)
        with Cons False show ?thesis by (cases s) simp_all
      qed
    qed
  qed
qed

lemma site_job_run:
  "crawl_job site_env 9 (set_defaults plain_request) site_job =
     ([PublishCall (event ''progress'' ''j1'' []),
       PublishCall (event ''progress'' ''j1'' []),
       PublishCall (event ''tier_switch'' ''j1'' ''sitemap''),
       Invoke ''sitemap'',
       PublishCall ((event ''progress'' ''j1'' ''sitemap'')\<lparr>Total_e := 1\<rparr>),
       PublishCall (event ''tier_switch'' ''j1'' ''html''),
       Invoke ''html'',
       PublishCall ((event ''progress'' ''j1'' ''html'')\<lparr>Total_e := 1\<rparr>),
       PublishCall ((event ''completed'' ''j1'' [])\<lparr>Total_e := 1\<rparr>),
       JobsLock,
       SetStatus ''completed'',
       SetResult site_result,
       PublishCall ((event ''completed'' ''j1'' [])\<lparr>Total_e := 1\<rparr>),
       SetUpdatedAt 9,
       StoreUpdate (site_job\<lparr>Status := ''completed'', Result := Some site_result,
                             UpdatedAt := 9\<rparr>),
       JobsUnlock],
      site_job\<lparr>Status := ''completed'', Result := Some site_result, UpdatedAt := 9\<rparr>)"
proof -
  have "URL_crawl (set_defaults plain_request) = ''https://www.ex.test/''"
    by (simp add: set_defaults_def plain_request_def Let_def)
  moreover have "ID site_job = ''j1''" by (simp add: site_job_def)
  ultimately show ?thesis
    by (simp add: crawl_job_def site_env_run site_result_def Let_def)
qed

text \<open>
  C1, as stated, fails: in this run of a job that completes, with the bus connected, both
  \<open>completed\<close> events are on the bus before the store write, the first even before
  the status is changed in memory.
\<close>

theorem terminal_publish_counterexample:
  "is_run open_bus 0 (fst (crawl_job site_env 9 (set_defaults plain_request) site_job)) []
     site_trace \<and>
   \<not> spec_published_after_update False site_trace"
  by (simp add: site_job_run site_trace_def terminal_event_def event_def
      PublishCrawlEvent_def open_bus_def)

text \<open>
  C1, amended. The goroutine of a crawl job calls the publisher for its terminal event
  before the registry update, not after it. Its steps are, in this order: the call for
  the first \<open>progress\<close> event; the steps of \<open>CrawlWebsiteWithTiers\<close>, none of
  which touches the registry and the last of which is the call for the terminal event
  (\<open>completed\<close> with the number of URLs of the result, or \<open>error\<close> with the
  prober's error); the lock; the status and the error, or the status, the result and the
  goroutine's own call for \<open>completed\<close>; the time stamp, the store write of the
  job in its final state, and the unlock. Each call that finds the channel open starts a
  goroutine that publishes on its own, so nothing orders the publication and the update:
  the run in which every goroutine publishes as soon as it is started is a run of the job,
  and when every call starts its goroutine a terminal event is on the bus before the
  store write in it; the run in which they all publish after the executor's last step is
  a run too, and keeps the order asked for. While the channel is never open the job has
  one run only, the executor's steps with nothing published.
\<close>

theorem publish_calls_before_registry_update:
  "fst (crawl_job env now req job) =
     PublishCall (event ''progress'' (ID job) []) #
     fst (CrawlWebsiteWithTiers env (URL_crawl req) req (ID job)) @
     JobsLock #
     (case snd (CrawlWebsiteWithTiers env (URL_crawl req) req (ID job)) of
        Inl err \<Rightarrow> [SetStatus ''failed'', SetError err]
      | Inr result \<Rightarrow>
          [SetStatus ''completed'', SetResult result,
           PublishCall ((event ''completed'' (ID job) [])
                         \<lparr>Total_e := int (length (URLs result))\<rparr>)]) @
     [SetUpdatedAt now, StoreUpdate (snd (crawl_job env now req job)), JobsUnlock] \<and>
   snd (crawl_job env now req job) =
     (case snd (CrawlWebsiteWithTiers env (URL_crawl req) req (ID job)) of
        Inl err \<Rightarrow> job\<lparr>Status := ''failed'', Error_j := err, UpdatedAt := now\<rparr>
      | Inr result \<Rightarrow>
          job\<lparr>Status := ''completed'', Result := Some result, UpdatedAt := now\<rparr>) \<and>
   fst (CrawlWebsiteWithTiers env (URL_crawl req) req (ID job)) \<noteq> [] \<and>
   list_all (\<lambda>s. \<not> registry_step s)
     (fst (CrawlWebsiteWithTiers env (URL_crawl req) req (ID job))) \<and>
   (case snd (CrawlWebsiteWithTiers env (URL_crawl req) req (ID job)) of
      Inr result \<Rightarrow>
        last (fst (CrawlWebsiteWithTiers env (URL_crawl req) req (ID job))) =
          PublishCall ((event ''completed'' (ID job) [])
                        \<lparr>Total_e := int (length (URLs result))\<rparr>)
    | Inl err \<Rightarrow>
        \<exists>m. err = ''URL and all fallbacks are inaccessible: '' @ m \<and>
          last (fst (CrawlWebsiteWithTiers env (URL_crawl req) req (ID job))) =
            PublishCall ((event ''error'' (ID job) [])\<lparr>Error_e := m\<rparr>)) \<and>
   is_run bus 0 (fst (crawl_job env now req job)) []
     (eager bus 0 (fst (crawl_job env now req job))) \<and>
   ((\<forall>k e. PublishCrawlEvent bus k e = Some e) \<longrightarrow>
      \<not> spec_published_after_update False (eager bus 0 (fst (crawl_job env now req job)))) \<and>
   is_run bus 0 (fst (crawl_job env now req job)) []
     (lazy bus 0 (fst (crawl_job env now req job))) \<and>
   spec_published_after_update False (lazy bus 0 (fst (crawl_job env now req job))) \<and>
   ((\<forall>k. RabbitChannel bus k \<noteq> ChanOpen) \<longrightarrow>
      (\<forall>tr. is_run bus 0 (fst (crawl_job env now req job)) [] tr \<longleftrightarrow>
         tr = map Did (filter (\<lambda>s. \<not> publish_call s) (fst (crawl_job env now req job)))))"
proof -
  have "is_run bus 0 (fst (crawl_job env now req job)) []
     (eager bus 0 (fst (crawl_job env now req job)))"
    using is_run_eager [of bus 0 "fst (crawl_job env now req job)" "[]"] by simp
  moreover have "\<not> spec_published_after_update False
      (eager bus 0 (fst (crawl_job env now req job)))"
    if "\<forall>k e. PublishCrawlEvent bus k e = Some e"
    using eager_run_violates [of bus env now req job] that by simp
  moreover have "is_run bus 0 (fst (crawl_job env now req job)) [] tr \<longleftrightarrow>
         tr = map Did (filter (\<lambda>s. \<not> publish_call s) (fst (crawl_job env now req job)))"
    if "\<forall>k. RabbitChannel bus k \<noteq> ChanOpen" for tr
    using closed_bus_run [of bus 0 "fst (crawl_job env now req job)" tr] that by simp
  ultimately show ?thesis
    using crawl_job_steps [of env now req job] crawl_last [of env "URL_crawl req" req "ID job"]
      lazy_run_conforms [of bus env now req job]
    by blast
qed

theorem publish_calls_before_registry_update_witness:
  "is_run open_bus 0 (fst (crawl_job site_env 9 (set_defaults plain_request) site_job)) []
     (eager open_bus 0 (fst (crawl_job site_env 9 (set_defaults plain_request) site_job))) \<and>
   \<not> spec_published_after_update False
     (eager open_bus 0 (fst (crawl_job site_env 9 (set_defaults plain_request) site_job))) \<and>
   Status (snd (crawl_job site_env 9 (set_defaults plain_request) site_job)) = ''completed'' \<and>
   is_run (open_bus\<lparr>RabbitChannel := (\<lambda>n. ChanNil)\<rparr>) 0
     (fst (crawl_job site_env 9 (set_defaults plain_request) site_job))
     [] [Did (Invoke ''sitemap''), Did (Invoke ''html''), Did JobsLock,
         Did (SetStatus ''completed''), Did (SetResult site_result), Did (SetUpdatedAt 9),
         Did (StoreUpdate (site_job\<lparr>Status := ''completed'', Result := Some site_result,
                                UpdatedAt := 9\<rparr>)),
         Did JobsUnlock]"
proof -
  let ?c = "set_defaults plain_request"
  note P = publish_calls_before_registry_update
    [where env = site_env and now = 9 and req = ?c and job = site_job]
  have o: "\<forall>k e. PublishCrawlEvent open_bus k e = Some e"
    by (simp add: PublishCrawlEvent_def open_bus_def)
  have n: "\<forall>k. RabbitChannel (open_bus\<lparr>RabbitChannel := (\<lambda>n. ChanNil)\<rparr>) k \<noteq> ChanOpen"
    by simp
  note E = P [where bus = open_bus]
  from E [THEN conjunct2, THEN conjunct2, THEN conjunct2, THEN conjunct2, THEN conjunct2,
      THEN conjunct1]
  have a: "is_run open_bus 0 (fst (crawl_job site_env 9 ?c site_job)) []
     (eager open_bus 0 (fst (crawl_job site_env 9 ?c site_job)))" .
  from E [THEN conjunct2, THEN conjunct2, THEN conjunct2, THEN conjunct2, THEN conjunct2,
      THEN conjunct2, THEN conjunct1, THEN mp, OF o]
  have b: "\<not> spec_published_after_update False
     (eager open_bus 0 (fst (crawl_job site_env 9 ?c site_job)))" .
  have c: "Status (snd (crawl_job site_env 9 ?c site_job)) = ''completed''"
    by (simp add: site_job_run)
  note D = P [where bus = "open_bus\<lparr>RabbitChannel := (\<lambda>n. ChanNil)\<rparr>",
      THEN conjunct2, THEN conjunct2, THEN conjunct2, THEN conjunct2, THEN conjunct2,
      THEN conjunct2, THEN conjunct2, THEN conjunct2, THEN conjunct2, THEN mp, OF n]
  have f: "[Did (Invoke ''sitemap''), Did (Invoke ''html''), Did JobsLock,
         Did (SetStatus ''completed''), Did (SetResult site_result), Did (SetUpdatedAt 9),
         Did (StoreUpdate (site_job\<lparr>Status := ''completed'', Result := Some site_result,
                                UpdatedAt := 9\<rparr>)),
         Did JobsUnlock] =
      map Did (filter (\<lambda>s. \<not> publish_call s) (fst (crawl_job site_env 9 ?c site_job)))"
    by (simp add: site_job_run)
  note d = D [THEN spec, THEN iffD2, OF f]
  from a b c d show ?thesis by blast
qed

section \<open>Properties of the recovery\<close>

lemma shared_run:
  "LoadActiveJobsFromMongoDB SharedVar (\<lambda>i. 100 + int i) True restart_server =
     \<lparr>ActiveJobs = [''job-a'' \<mapsto> 0, ''job-b'' \<mapsto> 0],
      heap = [failed_job ''job-b'' 101],
      JobsCollection = Some [stored_job ''job-a'' ''running'', failed_job ''job-b'' 101,
                             stored_job ''job-c'' ''completed'']\<rparr>"
  by (simp add: LoadActiveJobsFromMongoDB_def restart_server_def stored_job_def failed_job_def
      UpdateJobInMongoDB_def JobStatus_zero_def Let_def)

lemma per_iteration_run:
  "LoadActiveJobsFromMongoDB PerIteration (\<lambda>i. 100 + int i) True restart_server =
     \<lparr>ActiveJobs = [''job-a'' \<mapsto> 0, ''job-b'' \<mapsto> 1],
      heap = [failed_job ''job-a'' 100, failed_job ''job-b'' 101],
      JobsCollection = Some [failed_job ''job-a'' 100, failed_job ''job-b'' 101,
                             stored_job ''job-c'' ''completed'']\<rparr>"
  by (simp add: LoadActiveJobsFromMongoDB_def restart_server_def stored_job_def failed_job_def
      UpdateJobInMongoDB_def JobStatus_zero_def Let_def)

text \<open>
  With either kind of loop variable the keys added to the map are the ids of the running
  records.
\<close>

lemma UpdateJobInMongoDB_keeps:
  "ActiveJobs (UpdateJobInMongoDB a srv) = ActiveJobs srv"
  by (simp add: UpdateJobInMongoDB_def split: option.splits)

lemma goroutines_keep:
  "ActiveJobs (foldl (\<lambda>srv a. UpdateJobInMongoDB a srv) srv started) = ActiveJobs srv"
  by (induction started arbitrary: srv) (simp_all add: UpdateJobInMongoDB_keeps)

lemma recover_loop_keys:
  assumes "lv = SharedVar \<longrightarrow> var < length (heap srv)"
  shows "dom (ActiveJobs (fst (recover_loop lv clock var i (srv, started) elems))) =
           dom (ActiveJobs srv) \<union> ID ` set elems"
  using assms
proof (induction elems arbitrary: srv started i)
  case Nil
  then show ?case by simp
next
  case (Cons elem rest)
  show ?case
  proof (cases lv)
    case SharedVar
    let ?job = "elem\<lparr>Status := ''failed'',
                  Error_j := ''Job interrupted by server restart'', UpdatedAt := clock i\<rparr>"
    let ?srv = "srv\<lparr>heap := (heap srv)[var := ?job],
                    ActiveJobs := (ActiveJobs srv)(ID elem \<mapsto> var)\<rparr>"
    have v: "var < length (heap srv)" using Cons.prems SharedVar by simp
    then have step: "recover_loop lv clock var i (srv, started) (elem # rest)
        = recover_loop lv clock var (i + 1) (?srv, started @ [var]) rest"
      using SharedVar by (simp add: Let_def)
    have "lv = SharedVar \<longrightarrow> var < length (heap ?srv)" using v by simp
    from Cons.IH [OF this] show ?thesis unfolding step by auto
  next
    case PerIteration
    let ?job = "elem\<lparr>Status := ''failed'',
                  Error_j := ''Job interrupted by server restart'', UpdatedAt := clock i\<rparr>"
    let ?srv = "srv\<lparr>heap := heap srv @ [?job],
                    ActiveJobs := (ActiveJobs srv)(ID elem \<mapsto> length (heap srv))\<rparr>"
    have step: "recover_loop lv clock var i (srv, started) (elem # rest)
        = recover_loop lv clock var (i + 1) (?srv, started @ [length (heap srv)]) rest"
      using PerIteration by (simp add: Let_def)
    have "lv = SharedVar \<longrightarrow> var < length (heap ?srv)" using PerIteration by simp
    from Cons.IH [OF this] show ?thesis unfolding step by auto
  qed
qed

lemma recovery_keys:
  assumes "JobsCollection srv = Some docs"
  shows "dom (ActiveJobs (LoadActiveJobsFromMongoDB lv clock True srv)) =
           dom (ActiveJobs srv) \<union> ID ` {doc \<in> set docs. Status doc = ''running''}"
proof -
  let ?srv = "case lv of SharedVar \<Rightarrow> srv\<lparr>heap := heap srv @ [JobStatus_zero]\<rparr>
                        | PerIteration \<Rightarrow> srv"
  let ?rec = "filter (\<lambda>doc. Status doc = ''running'') docs"
  obtain srv' started where l: "recover_loop lv clock (length (heap srv)) 0 (?srv, []) ?rec = (srv', started)"
    by (cases "recover_loop lv clock (length (heap srv)) 0 (?srv, []) ?rec")
  have "lv = SharedVar \<longrightarrow> length (heap srv) < length (heap ?srv)"
    by (cases lv) simp_all
  from recover_loop_keys [OF this, of clock 0 "[]" ?rec] l
  have "dom (ActiveJobs srv') = dom (ActiveJobs ?srv) \<union> ID ` set ?rec" by simp
  moreover have "ActiveJobs ?srv = ActiveJobs srv" by (cases lv) simp_all
  moreover have "LoadActiveJobsFromMongoDB lv clock True srv
      = foldl (\<lambda>srv a. UpdateJobInMongoDB a srv) srv' started"
    using assms l by (simp add: LoadActiveJobsFromMongoDB_def Let_def)
  ultimately show ?thesis by (simp add: goroutines_keep)
qed

text \<open>
  C9 on a store with the running jobs \<open>job-a\<close> and \<open>job-b\<close>, with one loop
  variable for all iterations: both keys are in the map, but both lead to the one
  record of \<open>job-b\<close>, so a poll for \<open>job-a\<close> answers with \<open>job-b\<close>, and the
  store still has \<open>job-a\<close> as running.
\<close>

theorem recovery_shared_variable:
  "ActiveJobs (LoadActiveJobsFromMongoDB SharedVar (\<lambda>i. 100 + int i) True restart_server)
       ''job-a'' =
     ActiveJobs (LoadActiveJobsFromMongoDB SharedVar (\<lambda>i. 100 + int i) True restart_server)
       ''job-b'' \<and>
   HandleJobStatus (LoadActiveJobsFromMongoDB SharedVar (\<lambda>i. 100 + int i) True restart_server)
       ''job-a'' = Inr (failed_job ''job-b'' 101) \<and>
   JobsCollection (LoadActiveJobsFromMongoDB SharedVar (\<lambda>i. 100 + int i) True restart_server)
     = Some [stored_job ''job-a'' ''running'', failed_job ''job-b'' 101,
             stored_job ''job-c'' ''completed'']"
  by (simp add: shared_run HandleJobStatus_def)

end
